theory Spec2Isabelle
  imports Main
begin

section \<open>Python values and exceptions\<close>

text \<open>
  The controller of \<^verbatim>\<open>aci_policy_controller.py\<close> works on documents returned by
  \<^verbatim>\<open>json.loads\<close> and \<^verbatim>\<open>Response.json()\<close>. A document is a JSON value; a Python
  \<^verbatim>\<open>dict\<close> is an association list read with \<open>map_of\<close>, \<^verbatim>\<open>None\<close> is \<open>JNull\<close>.
  Numbers are kept as integers; no property below depends on a number.
\<close>

datatype json =
    JNull
  | JBool bool
  | JNum int
  | JStr string
  | JArr "json list"
  | JObj "(string \<times> json) list"

text \<open>
  The exception classes the controller raises, catches or lets pass. Each constructor
  stands for the class and its subclasses; \<open>Full\<close> is \<^verbatim>\<open>queue.Full\<close>. All of them
  derive from \<^verbatim>\<open>Exception\<close>.
\<close>

datatype exn =
    KeyError
  | TypeError
  | AttributeError
  | ValueError
  | ConnectionError
  | ChunkedEncodingError
  | HTTPError
  | KubernetesApiError
  | Full
  | OtherException string

text \<open>\<^verbatim>\<open>x[key]\<close> with a string key: only a dict can be subscripted by a string.\<close>

fun py_getitem :: "json \<Rightarrow> string \<Rightarrow> exn + json" where
  "py_getitem (JObj kvs) k = (case map_of kvs k of None \<Rightarrow> Inl KeyError | Some v \<Rightarrow> Inr v)"
| "py_getitem _ k = Inl TypeError"

text \<open>\<^verbatim>\<open>x.get(key, default)\<close>: a method of dicts only.\<close>

fun py_get :: "json \<Rightarrow> string \<Rightarrow> json \<Rightarrow> exn + json" where
  "py_get (JObj kvs) k d = Inr (case map_of kvs k of None \<Rightarrow> d | Some v \<Rightarrow> v)"
| "py_get _ k d = Inl AttributeError"

text \<open>Truth value of a document, as \<^verbatim>\<open>if resource_version:\<close> tests it.\<close>

fun py_truthy :: "json \<Rightarrow> bool" where
  "py_truthy JNull = False"
| "py_truthy (JBool b) = b"
| "py_truthy (JNum i) = (i \<noteq> 0)"
| "py_truthy (JStr s) = (s \<noteq> [])"
| "py_truthy (JArr xs) = (xs \<noteq> [])"
| "py_truthy (JObj kvs) = (kvs \<noteq> [])"

text \<open>\<^verbatim>\<open>len(x)\<close> and \<^verbatim>\<open>for r in x\<close>: lists, dicts (their keys) and strings (their
  characters) are sized and iterable, the other documents raise \<^verbatim>\<open>TypeError\<close>.\<close>

fun py_len :: "json \<Rightarrow> exn + nat" where
  "py_len (JArr xs) = Inr (length xs)"
| "py_len (JObj kvs) = Inr (length kvs)"
| "py_len (JStr s) = Inr (length s)"
| "py_len _ = Inl TypeError"

fun py_iter :: "json \<Rightarrow> exn + json list" where
  "py_iter (JArr xs) = Inr xs"
| "py_iter (JObj kvs) = Inr (map (\<lambda>kv. JStr (fst kv)) kvs)"
| "py_iter (JStr s) = Inr (map (\<lambda>c. JStr [c]) s)"
| "py_iter _ = Inl TypeError"

text \<open>A list or a dict cannot be hashed, so it cannot be (part of) a dictionary key.\<close>

fun py_hashable :: "json \<Rightarrow> bool" where
  "py_hashable (JArr xs) = False"
| "py_hashable (JObj kvs) = False"
| "py_hashable _ = True"

section \<open>Constants of the missing module constants/k8s.py\<close>

text \<open>Modelled from the spec: \<^verbatim>\<open>constants/k8s.py\<close> is not among the sources. The event
  kinds are the four strings listed in the docstring of \<^verbatim>\<open>read_updates\<close> and in the
  spec's data model (Added, Modified, Deleted, Error).\<close>

definition TYPE_ADDED :: string where "TYPE_ADDED = ''ADDED''"
definition TYPE_MODIFIED :: string where "TYPE_MODIFIED = ''MODIFIED''"
definition TYPE_DELETED :: string where "TYPE_DELETED = ''DELETED''"
definition TYPE_ERROR :: string where "TYPE_ERROR = ''ERROR''"

text \<open>Modelled from the spec: the resource types of \<^verbatim>\<open>constants/k8s.py\<close>, named in the
  docstring of \<^verbatim>\<open>read_updates\<close> and in the spec's data model.\<close>

definition RESOURCE_TYPE_NETWORK_POLICY :: string where
  "RESOURCE_TYPE_NETWORK_POLICY = ''NetworkPolicy''"
definition RESOURCE_TYPE_NAMESPACE :: string where
  "RESOURCE_TYPE_NAMESPACE = ''Namespace''"
definition RESOURCE_TYPE_POD :: string where
  "RESOURCE_TYPE_POD = ''Pod''"

section \<open>Events, requests, replies and observable effects\<close>

text \<open>An update on the queue is the tuple \<^verbatim>\<open>(event_type, resource_type, resource)\<close>.\<close>

type_synonym event = "json \<times> json \<times> json"

text \<open>What \<^verbatim>\<open>_api_get(path, stream, resource_version)\<close> sends: the path, the version
  appended as \<^verbatim>\<open>?resourceVersion=\<close> (absent when the argument is falsy) and the stream
  flag. Credentials and TLS settings play no part in the properties below.\<close>

record request =
  req_path :: string
  req_version :: "json option"
  req_stream :: bool

text \<open>One line of \<^verbatim>\<open>response.iter_lines()\<close>: a keep-alive (empty) line, a line that
  \<^verbatim>\<open>json.loads\<close> parses, or one on which it raises \<^verbatim>\<open>ValueError\<close>.\<close>

datatype line = Blank | Doc json | Garbage

text \<open>A response: its status, the result of \<^verbatim>\<open>json()\<close> (\<open>None\<close> when the body is not
  JSON and the call raises \<^verbatim>\<open>ValueError\<close>), the lines of its stream, and how the stream
  ends: cleanly (\<open>None\<close>) or with an exception raised by \<^verbatim>\<open>iter_lines\<close>.\<close>

record response =
  status_code :: int
  resp_json :: "json option"
  iter_lines :: "line list"
  stream_error :: "exn option"

text \<open>The control plane's answer to one request: the transport raises, or a response.\<close>

datatype reply = Raises exn | Response response

datatype level = DEBUG | INFO | WARNING | ERROR | EXCEPTION

text \<open>
  The observable effects, in program order. \<open>Log\<close> carries the level, the format string
  and its document-valued arguments. \<open>Invoke\<close> marks the call \<^verbatim>\<open>handler(self, resource)\<close>
  for a (resource type, event type) key; \<open>Exit\<close> is \<^verbatim>\<open>os._exit\<close>. Of the debug and info
  lines only those that tell branches apart are kept.
\<close>

datatype effect =
    ApiGet request
  | QueuePut event
  | Log level string "json list"
  | Sleep nat
  | Invoke json json json
  | TaskDone
  | ElectionGet
  | Exit int

fun enqueued :: "effect list \<Rightarrow> event list" where
  "enqueued [] = []"
| "enqueued (QueuePut ev # t) = ev # enqueued t"
| "enqueued (_ # t) = enqueued t"

fun requests :: "effect list \<Rightarrow> request list" where
  "requests [] = []"
| "requests (ApiGet r # t) = r # requests t"
| "requests (_ # t) = requests t"

section \<open>Handler registry\<close>

text \<open>A handler receives the controller (its shared state \<open>'s\<close>) and the resource; it
  may update the state and may raise. The handlers themselves are external.\<close>

type_synonym 's handler = "'s \<Rightarrow> json \<Rightarrow> exn option \<times> 's"

type_synonym 's registry = "string \<times> string \<rightharpoonup> 's handler"

definition add_handler ::
  "'s registry \<Rightarrow> string \<Rightarrow> string \<Rightarrow> 's handler \<Rightarrow> 's registry" where
  "add_handler handlers resource_type event_type handler =
     handlers((resource_type, event_type) \<mapsto> handler)"

text \<open>\<^verbatim>\<open>self._handlers[key]\<close> with \<^verbatim>\<open>key = (resource_type, event_type)\<close> taken from the
  update: an unhashable component raises \<^verbatim>\<open>TypeError\<close>; the registered keys are pairs
  of strings, so any other hashable key is absent.\<close>

definition get_handler :: "'s registry \<Rightarrow> json \<Rightarrow> json \<Rightarrow> exn + 's handler" where
  "get_handler handlers resource_type event_type =
     (if \<not> py_hashable resource_type \<or> \<not> py_hashable event_type then Inl TypeError
      else case (resource_type, event_type) of
          (JStr r, JStr e) \<Rightarrow>
            (case handlers (r, e) of None \<Rightarrow> Inl KeyError | Some handler \<Rightarrow> Inr handler)
        | _ \<Rightarrow> Inl KeyError)"

text \<open>The nine registrations of \<^verbatim>\<open>Controller.__init__\<close>, in their order.\<close>

definition init_handlers ::
  "'s handler \<Rightarrow> 's handler \<Rightarrow> 's handler \<Rightarrow> 's handler \<Rightarrow> 's handler \<Rightarrow> 's handler
     \<Rightarrow> 's registry" where
  "init_handlers add_update_network_policy delete_network_policy
       add_update_namespace delete_namespace add_update_pod delete_pod =
    add_handler (add_handler (add_handler
    (add_handler (add_handler (add_handler
    (add_handler (add_handler (add_handler Map.empty
       RESOURCE_TYPE_NETWORK_POLICY TYPE_ADDED add_update_network_policy)
       RESOURCE_TYPE_NETWORK_POLICY TYPE_MODIFIED add_update_network_policy)
       RESOURCE_TYPE_NETWORK_POLICY TYPE_DELETED delete_network_policy)
       RESOURCE_TYPE_NAMESPACE TYPE_ADDED add_update_namespace)
       RESOURCE_TYPE_NAMESPACE TYPE_MODIFIED add_update_namespace)
       RESOURCE_TYPE_NAMESPACE TYPE_DELETED delete_namespace)
       RESOURCE_TYPE_POD TYPE_ADDED add_update_pod)
       RESOURCE_TYPE_POD TYPE_MODIFIED add_update_pod)
       RESOURCE_TYPE_POD TYPE_DELETED delete_pod"

section \<open>Dispatcher: \<^verbatim>\<open>_process_update\<close> and \<^verbatim>\<open>read_updates\<close>\<close>

text \<open>
  \<^verbatim>\<open>_process_update\<close> returns the exception that leaves it (\<open>None\<close> when it returns),
  the controller state and its effects. The name and the namespace are read first; a
  \<^verbatim>\<open>KeyError\<close> of the lookup gives the warning, a \<^verbatim>\<open>KeyError\<close> of the handler is
  logged with the resource, anything else passes.
\<close>

definition process_update ::
  "'s registry \<Rightarrow> 's \<Rightarrow> event \<Rightarrow> exn option \<times> 's \<times> effect list" where
  "process_update handlers st update =
     (case update of (event_type, resource_type, resource) \<Rightarrow>
      (case py_getitem resource ''metadata'' of
         Inl e \<Rightarrow> (Some e, st, [])
       | Inr metadata \<Rightarrow>
      (case py_getitem metadata ''name'' of
         Inl e \<Rightarrow> (Some e, st, [])
       | Inr name \<Rightarrow>
      (case py_get metadata ''namespace'' JNull of
         Inl e \<Rightarrow> (Some e, st, [])
       | Inr namespace \<Rightarrow>
      (case get_handler handlers resource_type event_type of
         Inl KeyError \<Rightarrow>
           (None, st, [Log WARNING ''No %s handlers for: %s'' [event_type, resource_type]])
       | Inl e \<Rightarrow> (Some e, st, [])
       | Inr handler \<Rightarrow>
          (case handler st resource of
             (None, st') \<Rightarrow>
               (None, st',
                [Invoke resource_type event_type resource,
                 Log INFO ''Handled %s for %s: %s''
                   [event_type, resource_type, JArr [namespace, name]]])
           | (Some KeyError, st') \<Rightarrow>
               (None, st',
                [Invoke resource_type event_type resource,
                 Log EXCEPTION ''Invalid %s: %s'' [resource_type, resource]])
           | (Some e, st') \<Rightarrow>
               (Some e, st', [Invoke resource_type event_type resource])))))))"

text \<open>
  \<^verbatim>\<open>read_updates\<close> on the updates that \<^verbatim>\<open>get\<close> delivers, in queue order. The result
  \<open>None\<close> means every update was consumed and the loop waits in \<^verbatim>\<open>get\<close>; \<open>Some e\<close>
  means \<open>e\<close> left the \<^verbatim>\<open>while True\<close> loop, so \<^verbatim>\<open>read_updates\<close>, \<^verbatim>\<open>run\<close> and the
  process end with it. \<^verbatim>\<open>task_done\<close> runs in the \<^verbatim>\<open>finally\<close> clause on every path.
\<close>

fun read_updates ::
  "'s registry \<Rightarrow> 's \<Rightarrow> event list \<Rightarrow> exn option \<times> 's \<times> effect list" where
  "read_updates handlers st [] = (None, st, [])"
| "read_updates handlers st (update # rest) =
     (case process_update handlers st update of
        (None, st', effs) \<Rightarrow>
          (case read_updates handlers st' rest of
             (r, st'', effs') \<Rightarrow> (r, st'', effs @ [TaskDone] @ effs'))
      | (Some KeyError, st', effs) \<Rightarrow>
          (case read_updates handlers st' rest of
             (r, st'', effs') \<Rightarrow>
               (r, st'',
                effs @ [Log EXCEPTION ''Invalid update: %s''
                          [fst update, fst (snd update), snd (snd update)], TaskDone] @ effs'))
      | (Some e, st', effs) \<Rightarrow> (Some e, st', effs @ [TaskDone]))"

section \<open>Watch session: \<^verbatim>\<open>_api_get\<close>, \<^verbatim>\<open>_sync_resources\<close>, \<^verbatim>\<open>_watch_resource\<close>,
  \<^verbatim>\<open>_manage_resource\<close>\<close>

definition api_get :: "string \<Rightarrow> bool \<Rightarrow> json \<Rightarrow> request" where
  "api_get path stream resource_version =
     \<lparr>req_path = path,
      req_version = (if py_truthy resource_version then Some resource_version else None),
      req_stream = stream\<rparr>"

text \<open>
  \<^verbatim>\<open>self._event_queue.put(update, block=True, timeout=QUEUE_PUT_TIMEOUT)\<close>. Whether room
  appears before the timeout depends on the other threads, so the session sees each put
  succeed or raise \<^verbatim>\<open>queue.Full\<close>: \<open>put_ok n\<close> tells it for the session's \<open>n\<close>-th put.
\<close>

definition queue_put :: "(nat \<Rightarrow> bool) \<Rightarrow> event \<Rightarrow> nat \<Rightarrow> exn + effect" where
  "queue_put put_ok update n = (if put_ok n then Inr (QueuePut update) else Inl Full)"

text \<open>The \<^verbatim>\<open>for resource in resources\<close> loop of \<^verbatim>\<open>_sync_resources\<close>.\<close>

fun sync_loop ::
  "(nat \<Rightarrow> bool) \<Rightarrow> string \<Rightarrow> json list \<Rightarrow> nat \<Rightarrow> exn option \<times> effect list \<times> nat" where
  "sync_loop put_ok resource_type [] n = (None, [], n)"
| "sync_loop put_ok resource_type (resource # rest) n =
     (case queue_put put_ok (JStr TYPE_MODIFIED, JStr resource_type, resource) n of
        Inl e \<Rightarrow> (Some e, [], Suc n)
      | Inr eff \<Rightarrow>
          (case sync_loop put_ok resource_type rest (Suc n) of
             (r, effs, n') \<Rightarrow> (r, eff # effs, n')))"

text \<open>
  \<^verbatim>\<open>_sync_resources\<close>, given the reply to its one list request: the raised exception or
  the returned \<^verbatim>\<open>resourceVersion\<close>, the effects, and the number of puts made so far.
  The URL tables \<^verbatim>\<open>GET_URLS\<close> and \<^verbatim>\<open>WATCH_URLS\<close> are not among the sources; the
  session's two paths are parameters.
\<close>

definition sync_resources ::
  "(nat \<Rightarrow> bool) \<Rightarrow> string \<Rightarrow> string \<Rightarrow> reply \<Rightarrow> nat \<Rightarrow> (exn + json) \<times> effect list \<times> nat" where
  "sync_resources put_ok url resource_type rep n =
     (let req = ApiGet (api_get url False JNull) in
      case rep of
        Raises e \<Rightarrow> (Inl e, [req], n)
      | Response resp \<Rightarrow>
          if status_code resp \<noteq> 200
          then (case resp_json resp of
                  None \<Rightarrow> (Inl ValueError, [req], n)
                | Some body \<Rightarrow>
                    (Inl KubernetesApiError,
                     [req, Log ERROR ''Error querying API: %s'' [body]], n))
          else
          (case resp_json resp of
             None \<Rightarrow> (Inl ValueError, [req], n)
           | Some body \<Rightarrow>
          (case py_getitem body ''items'' of
             Inl e \<Rightarrow> (Inl e, [req], n)
           | Inr resources \<Rightarrow>
          (case py_get body ''metadata'' (JObj []) of
             Inl e \<Rightarrow> (Inl e, [req], n)
           | Inr metadata \<Rightarrow>
          (case py_get metadata ''resourceVersion'' JNull of
             Inl e \<Rightarrow> (Inl e, [req], n)
           | Inr resource_version \<Rightarrow>
          (case py_len resources of
             Inl e \<Rightarrow> (Inl e, [req], n)
           | Inr len \<Rightarrow>
          (case py_iter resources of
             Inl e \<Rightarrow> (Inl e, [req], n)
           | Inr rs \<Rightarrow>
              (case sync_loop put_ok resource_type rs n of
                 (Some e, effs, n') \<Rightarrow> (Inl e, req # effs, n')
               | (None, effs, n') \<Rightarrow> (Inr resource_version, req # effs, n')))))))))"

text \<open>
  The body of the \<^verbatim>\<open>for line in response.iter_lines()\<close> loop for a parsed line. It
  returns the new values of the locals \<^verbatim>\<open>resource_type\<close> (assigned from the payload)
  and \<^verbatim>\<open>resource_version\<close>. The info line before the put reads
  \<^verbatim>\<open>resource["metadata"]["name"]\<close>, which can raise.
\<close>

definition watch_event ::
  "(nat \<Rightarrow> bool) \<Rightarrow> json \<Rightarrow> nat \<Rightarrow> (exn + json \<times> json) \<times> effect list \<times> nat" where
  "watch_event put_ok parsed n =
     (case py_getitem parsed ''type'' of
        Inl e \<Rightarrow> (Inl e, [], n)
      | Inr event_type \<Rightarrow>
          if event_type = JStr TYPE_ERROR
          then (Inl KubernetesApiError,
                [Log ERROR ''Received error from API: %s'' [parsed]], n)
          else
          (case py_getitem parsed ''object'' of
             Inl e \<Rightarrow> (Inl e, [], n)
           | Inr resource \<Rightarrow>
          (case py_getitem resource ''kind'' of
             Inl e \<Rightarrow> (Inl e, [], n)
           | Inr resource_type \<Rightarrow>
          (case py_getitem resource ''metadata'' of
             Inl e \<Rightarrow> (Inl e, [], n)
           | Inr metadata \<Rightarrow>
          (case py_getitem metadata ''name'' of
             Inl e \<Rightarrow> (Inl e, [], n)
           | Inr name \<Rightarrow>
          (case queue_put put_ok (event_type, resource_type, resource) n of
             Inl e \<Rightarrow> (Inl e, [], Suc n)
           | Inr eff \<Rightarrow>
          (case py_getitem metadata ''resourceVersion'' of
             Inl e \<Rightarrow> (Inl e, [eff], Suc n)
           | Inr new_ver \<Rightarrow> (Inr (resource_type, new_ver), [eff], Suc n))))))))"

text \<open>The \<^verbatim>\<open>for\<close> loop over the lines of one stream, from the current values of the two
  locals.\<close>

fun watch_lines ::
  "(nat \<Rightarrow> bool) \<Rightarrow> json \<Rightarrow> json \<Rightarrow> line list \<Rightarrow> nat
     \<Rightarrow> (exn + json \<times> json) \<times> effect list \<times> nat" where
  "watch_lines put_ok resource_type resource_version [] n =
     (Inr (resource_type, resource_version), [], n)"
| "watch_lines put_ok resource_type resource_version (Blank # ls) n =
     watch_lines put_ok resource_type resource_version ls n"
| "watch_lines put_ok resource_type resource_version (Garbage # ls) n =
     (Inl ValueError, [], n)"
| "watch_lines put_ok resource_type resource_version (Doc parsed # ls) n =
     (case watch_event put_ok parsed n of
        (Inl e, effs, n') \<Rightarrow> (Inl e, effs, n')
      | (Inr (resource_type', new_ver), effs, n') \<Rightarrow>
          (case watch_lines put_ok resource_type' new_ver ls n' of
             (r, effs', n'') \<Rightarrow> (r, effs @ effs', n'')))"

text \<open>
  \<^verbatim>\<open>_watch_resource\<close> on the replies to its successive watch requests. It never
  returns: it ends with an exception, or (result \<open>None\<close>) it has sent a request and is
  still waiting for the reply when the given replies are used up. The replies left over
  are returned as well.
\<close>

fun watch_resource ::
  "(nat \<Rightarrow> bool) \<Rightarrow> string \<Rightarrow> json \<Rightarrow> json \<Rightarrow> reply list \<Rightarrow> nat
     \<Rightarrow> exn option \<times> effect list \<times> reply list \<times> nat" where
  "watch_resource put_ok path resource_type resource_version [] n =
     (None, [ApiGet (api_get path True resource_version)], [], n)"
| "watch_resource put_ok path resource_type resource_version (rep # rest) n =
     (let req = ApiGet (api_get path True resource_version) in
      case rep of
        Raises e \<Rightarrow> (Some e, [req], rest, n)
      | Response resp \<Rightarrow>
          if status_code resp \<noteq> 200 then (Some KubernetesApiError, [req], rest, n)
          else
          (case watch_lines put_ok resource_type resource_version (iter_lines resp) n of
             (Inl e, effs, n') \<Rightarrow> (Some e, req # effs, rest, n')
           | (Inr (resource_type', resource_version'), effs, n') \<Rightarrow>
               (case stream_error resp of
                  Some e \<Rightarrow> (Some e, req # effs, rest, n')
                | None \<Rightarrow>
                    (case watch_resource put_ok path resource_type' resource_version' rest n' of
                       (r, effs', rest', n'') \<Rightarrow> (r, req # effs @ effs', rest', n'')))))"

text \<open>
  One pass of the \<^verbatim>\<open>while True\<close> loop of \<^verbatim>\<open>_watch_resource\<close> on its own, given the
  reply to its request: the request, the status check and the \<^verbatim>\<open>for\<close> loop over
  the lines of the stream. The stream ends with an exception (\<open>Inl\<close>: raised by the
  request, by the status check, while a line is processed, or by \<^verbatim>\<open>iter_lines\<close>), or
  it ends cleanly and leaves the new values of the two locals (\<open>Inr\<close>).
\<close>

definition watch_stream ::
  "(nat \<Rightarrow> bool) \<Rightarrow> string \<Rightarrow> json \<Rightarrow> json \<Rightarrow> reply \<Rightarrow> nat
     \<Rightarrow> (exn + json \<times> json) \<times> effect list \<times> nat" where
  "watch_stream put_ok path resource_type resource_version rep n =
     (let req = ApiGet (api_get path True resource_version) in
      case rep of
        Raises e \<Rightarrow> (Inl e, [req], n)
      | Response resp \<Rightarrow>
          if status_code resp \<noteq> 200 then (Inl KubernetesApiError, [req], n)
          else
          (case watch_lines put_ok resource_type resource_version (iter_lines resp) n of
             (Inl e, effs, n') \<Rightarrow> (Inl e, req # effs, n')
           | (Inr (resource_type', resource_version'), effs, n') \<Rightarrow>
               (case stream_error resp of
                  Some e \<Rightarrow> (Inl e, req # effs, n')
                | None \<Rightarrow> (Inr (resource_type', resource_version'), req # effs, n'))))"

text \<open>The \<^verbatim>\<open>try\<close> body of \<^verbatim>\<open>_manage_resource\<close>: sync, then watch from the version the
  sync returned.\<close>

definition manage_try ::
  "(nat \<Rightarrow> bool) \<Rightarrow> string \<Rightarrow> string \<Rightarrow> string \<Rightarrow> reply \<Rightarrow> reply list \<Rightarrow> nat
     \<Rightarrow> exn option \<times> effect list \<times> reply list \<times> nat" where
  "manage_try put_ok get_url watch_url resource_type rep rest n =
     (case sync_resources put_ok get_url resource_type rep n of
        (Inl e, effs, n') \<Rightarrow> (Some e, effs, rest, n')
      | (Inr resource_version, effs, n') \<Rightarrow>
          (case watch_resource put_ok watch_url (JStr resource_type) resource_version rest n' of
             (r, effs', rest', n'') \<Rightarrow> (r, effs @ effs', rest', n'')))"

text \<open>The text of \<^verbatim>\<open>repr(e)\<close>, up to the arguments of the exception, which are not
  modelled: the name of its class.\<close>

fun repr_exn :: "exn \<Rightarrow> string" where
  "repr_exn KeyError = ''KeyError''"
| "repr_exn TypeError = ''TypeError''"
| "repr_exn AttributeError = ''AttributeError''"
| "repr_exn ValueError = ''ValueError''"
| "repr_exn ConnectionError = ''ConnectionError''"
| "repr_exn ChunkedEncodingError = ''ChunkedEncodingError''"
| "repr_exn HTTPError = ''HTTPError''"
| "repr_exn KubernetesApiError = ''KubernetesApiError''"
| "repr_exn Full = ''Full''"
| "repr_exn (OtherException name) = name"

text \<open>The \<^verbatim>\<open>except\<close> clauses of \<^verbatim>\<open>_manage_resource\<close>, in their order, and its
  \<^verbatim>\<open>finally\<close> clause.\<close>

fun manage_except :: "string \<Rightarrow> exn \<Rightarrow> effect list" where
  "manage_except resource_type ConnectionError =
     [Log EXCEPTION ''Connection error querying: %s'' [JStr resource_type]]"
| "manage_except resource_type ChunkedEncodingError =
     [Log EXCEPTION ''Connection error querying: %s'' [JStr resource_type]]"
| "manage_except resource_type HTTPError =
     [Log EXCEPTION ''HTTP error querying: %s'' [JStr resource_type]]"
| "manage_except resource_type KubernetesApiError =
     [Log DEBUG ''Kubernetes API error managing %s'' [JStr resource_type]]"
| "manage_except resource_type Full =
     [Log EXCEPTION ''Event queue full'' []]"
| "manage_except resource_type e =
     [Log EXCEPTION ''Unhandled exception %s killed %s manager''
        [JStr (repr_exn e), JStr resource_type]]"

definition manage_finally :: "string \<Rightarrow> effect list" where
  "manage_finally resource_type =
     [Log WARNING ''Re-starting watch on resource: %s'' [JStr resource_type], Sleep 1]"

lemma watch_resource_rest:
  "watch_resource put_ok path rt rv reps n = (r, effs, rest', n') \<Longrightarrow>
     length rest' \<le> length reps"
proof (induction reps arbitrary: rt rv n r effs rest' n')
  case Nil
  then show ?case by simp
next
  case (Cons rep reps)
  then show ?case
    by (fastforce simp: Let_def split: reply.splits if_splits prod.splits sum.splits
        option.splits)
qed

lemma manage_try_rest:
  "manage_try put_ok get_url watch_url rt rep rest n = (r, effs, rest', n') \<Longrightarrow>
     length rest' \<le> length rest"
  by (auto simp: manage_try_def split: prod.splits sum.splits dest: watch_resource_rest)

text \<open>
  \<^verbatim>\<open>_manage_resource\<close>: the effects of the session thread on the replies it receives.
  Every pass of the \<^verbatim>\<open>while True\<close> loop starts with a list request, so it uses up at
  least one reply; when they are used up the thread has sent its request and is waiting
  for the reply.
\<close>

function manage_resource ::
  "(nat \<Rightarrow> bool) \<Rightarrow> string \<Rightarrow> string \<Rightarrow> string \<Rightarrow> reply list \<Rightarrow> nat \<Rightarrow> effect list" where
  "manage_resource put_ok get_url watch_url resource_type [] n =
     [ApiGet (api_get get_url False JNull)]"
| "manage_resource put_ok get_url watch_url resource_type (rep # rest) n =
     (case manage_try put_ok get_url watch_url resource_type rep rest n of
        (None, effs, rest', n') \<Rightarrow> effs
      | (Some e, effs, rest', n') \<Rightarrow>
          effs @ manage_except resource_type e @ manage_finally resource_type @
          manage_resource put_ok get_url watch_url resource_type rest' n')"
  by pat_completeness auto
termination
  by (relation "measure (\<lambda>(put_ok, get_url, watch_url, resource_type, reps, n). length reps)")
     (auto dest: manage_try_rest [OF sym])

section \<open>Leader election: \<^verbatim>\<open>_is_leader\<close> and \<^verbatim>\<open>_watch_leadership\<close>\<close>

text \<open>
  \<^verbatim>\<open>_is_leader\<close> on the reply of the election endpoint. \<open>our_name\<close> is
  \<^verbatim>\<open>os.environ.get("HOSTNAME")\<close>, \<open>None\<close> when unset; \<^verbatim>\<open>our_name == leader_name\<close>
  compares it with the document under \<^verbatim>\<open>"name"\<close>.
\<close>

fun py_eq_name :: "string option \<Rightarrow> json \<Rightarrow> bool" where
  "py_eq_name (Some s) (JStr t) = (s = t)"
| "py_eq_name None JNull = True"
| "py_eq_name _ _ = False"

definition is_leader :: "string option \<Rightarrow> reply \<Rightarrow> exn + bool" where
  "is_leader our_name rep =
     (case rep of
        Raises e \<Rightarrow> Inl e
      | Response resp \<Rightarrow>
          (case resp_json resp of
             None \<Rightarrow> Inl ValueError
           | Some body \<Rightarrow>
               (case py_getitem body ''name'' of
                  Inl e \<Rightarrow> Inl e
                | Inr leader_name \<Rightarrow> Inr (py_eq_name our_name leader_name))))"

text \<open>\<^verbatim>\<open>_watch_leadership\<close> on the replies to its successive polls. \<^verbatim>\<open>os._exit(1)\<close> ends
  the process at once, so nothing follows \<open>Exit 1\<close>.\<close>

fun watch_leadership :: "string option \<Rightarrow> reply list \<Rightarrow> effect list" where
  "watch_leadership our_name [] = []"
| "watch_leadership our_name (rep # rest) =
     (case is_leader our_name rep of
        Inl e \<Rightarrow>
          [ElectionGet, Log EXCEPTION ''Exception verifying leadership - exiting'' [], Exit 1]
      | Inr False \<Rightarrow>
          [ElectionGet, Log WARNING ''No longer the elected leader - exiting'' [], Exit 1]
      | Inr True \<Rightarrow> ElectionGet # Sleep 1 # watch_leadership our_name rest)"

section \<open>Notions used by the properties\<close>

text \<open>Whether a handler is registered under the key of an update:
  \<^verbatim>\<open>(resource_type, event_type) in self._handlers\<close>.\<close>

definition registered :: "'s registry \<Rightarrow> json \<Rightarrow> json \<Rightarrow> bool" where
  "registered handlers resource_type event_type =
     (case (resource_type, event_type) of
        (JStr r, JStr e) \<Rightarrow> handlers (r, e) \<noteq> None
      | _ \<Rightarrow> False)"

text \<open>The cursor embedded in the resource of an update:
  \<^verbatim>\<open>resource["metadata"]["resourceVersion"]\<close>.\<close>

definition embedded_cursor :: "event \<Rightarrow> exn + json" where
  "embedded_cursor update =
     (case update of (event_type, resource_type, resource) \<Rightarrow>
        (case py_getitem resource ''metadata'' of
           Inl e \<Rightarrow> Inl e
         | Inr metadata \<Rightarrow> py_getitem metadata ''resourceVersion''))"

text \<open>
  The order of requests in a session's effects. The first request, and the first request
  after every restart of the outer loop (the \<^verbatim>\<open>finally\<close> clause sleeps one second, and
  every exception leaving the \<^verbatim>\<open>try\<close> body reaches it), must be a list request; a
  watch request (\<^verbatim>\<open>stream=True\<close>) is allowed only once a request has been made since
  the last restart.
\<close>

datatype phase = Resync | Watching

fun phase_after :: "phase \<Rightarrow> effect list \<Rightarrow> phase" where
  "phase_after ph [] = ph"
| "phase_after ph (ApiGet req # t) = phase_after Watching t"
| "phase_after ph (Sleep k # t) = phase_after Resync t"
| "phase_after ph (_ # t) = phase_after ph t"

fun list_before_watch :: "phase \<Rightarrow> effect list \<Rightarrow> bool" where
  "list_before_watch ph [] = True"
| "list_before_watch ph (ApiGet req # t) =
     (if req_stream req then ph = Watching \<and> list_before_watch Watching t
      else list_before_watch Watching t)"
| "list_before_watch ph (Sleep k # t) = list_before_watch Resync t"
| "list_before_watch ph (_ # t) = list_before_watch ph t"

text \<open>
  A run of watch streams that all end cleanly, one after the other as the loop of
  \<^verbatim>\<open>_watch_resource\<close> takes them: the values of the two locals after the last of them,
  their effects, and the number of puts made. \<open>None\<close> when one of them ends with an
  exception.
\<close>

fun clean_streams ::
  "(nat \<Rightarrow> bool) \<Rightarrow> string \<Rightarrow> json \<Rightarrow> json \<Rightarrow> reply list \<Rightarrow> nat
     \<Rightarrow> (json \<times> json \<times> effect list \<times> nat) option" where
  "clean_streams put_ok path resource_type resource_version [] n =
     Some (resource_type, resource_version, [], n)"
| "clean_streams put_ok path resource_type resource_version (rep # reps) n =
     (case watch_stream put_ok path resource_type resource_version rep n of
        (Inl e, effs, n') \<Rightarrow> None
      | (Inr (resource_type', resource_version'), effs, n') \<Rightarrow>
          (case clean_streams put_ok path resource_type' resource_version' reps n' of
             None \<Rightarrow> None
           | Some (resource_type'', resource_version'', effs', n'') \<Rightarrow>
               Some (resource_type'', resource_version'', effs @ effs', n'')))"

text \<open>Effects among which there is neither a request nor a sleep.\<close>

fun quiet :: "effect list \<Rightarrow> bool" where
  "quiet [] = True"
| "quiet (ApiGet req # t) = False"
| "quiet (Sleep k # t) = False"
| "quiet (_ # t) = quiet t"

section \<open>Example data\<close>

definition pod :: "string \<Rightarrow> string \<Rightarrow> json" where
  "pod name version =
     JObj [(''kind'', JStr ''Pod''),
           (''metadata'', JObj [(''name'', JStr name), (''resourceVersion'', JStr version)])]"

definition namespace_doc :: "string \<Rightarrow> string \<Rightarrow> json" where
  "namespace_doc name version =
     JObj [(''kind'', JStr ''Namespace''),
           (''metadata'', JObj [(''name'', JStr name), (''resourceVersion'', JStr version)])]"

definition leader_reply :: "string \<Rightarrow> reply" where
  "leader_reply name =
     Response \<lparr>status_code = 200, resp_json = Some (JObj [(''name'', JStr name)]),
               iter_lines = [], stream_error = None\<rparr>"

definition watch_doc :: "string \<Rightarrow> json \<Rightarrow> json" where
  "watch_doc event_type resource = JObj [(''type'', JStr event_type), (''object'', resource)]"

definition list_reply :: "json list \<Rightarrow> string \<Rightarrow> reply" where
  "list_reply items version =
     Response \<lparr>status_code = 200,
               resp_json = Some (JObj [(''items'', JArr items),
                                       (''metadata'', JObj [(''resourceVersion'', JStr version)])]),
               iter_lines = [], stream_error = None\<rparr>"

definition stream_reply :: "line list \<Rightarrow> exn option \<Rightarrow> reply" where
  "stream_reply ls ending =
     Response \<lparr>status_code = 200, resp_json = None, iter_lines = ls, stream_error = ending\<rparr>"

text \<open>A registry as \<^verbatim>\<open>__init__\<close> builds it, whose handlers count their calls in the
  shared state, and one whose handlers raise.\<close>

definition counting_handlers :: "nat registry" where
  "counting_handlers =
     init_handlers (\<lambda>st resource. (None, Suc st)) (\<lambda>st resource. (None, Suc st))
       (\<lambda>st resource. (None, Suc st)) (\<lambda>st resource. (None, Suc st))
       (\<lambda>st resource. (None, Suc st)) (\<lambda>st resource. (None, Suc st))"

definition raising_handlers :: "nat registry" where
  "raising_handlers =
     add_handler (add_handler Map.empty
       ''Pod'' ''ADDED'' (\<lambda>st resource. (Some KeyError, Suc st)))
       ''Pod'' ''DELETED'' (\<lambda>st resource. (Some TypeError, st))"

lemmas example_defs =
  pod_def namespace_doc_def leader_reply_def watch_doc_def list_reply_def stream_reply_def counting_handlers_def
  raising_handlers_def init_handlers_def add_handler_def get_handler_def
  TYPE_ADDED_def TYPE_MODIFIED_def TYPE_DELETED_def TYPE_ERROR_def
  RESOURCE_TYPE_NETWORK_POLICY_def RESOURCE_TYPE_NAMESPACE_def RESOURCE_TYPE_POD_def

section \<open>Auxiliary facts\<close>

lemma py_getitem_Inr:
  "py_getitem d k = Inr v \<Longrightarrow> \<exists>kvs. d = JObj kvs \<and> map_of kvs k = Some v"
  by (cases d) (auto split: option.splits)

lemma enqueued_append: "enqueued (a @ b) = enqueued a @ enqueued b"
  by (induction a rule: enqueued.induct) simp_all

lemma requests_append: "requests (a @ b) = requests a @ requests b"
  by (induction a rule: requests.induct) simp_all

lemma get_handler_unregistered:
  "py_hashable rt \<Longrightarrow> py_hashable et \<Longrightarrow> \<not> registered handlers rt et \<Longrightarrow>
     get_handler handlers rt et = Inl KeyError"
  by (cases rt; cases et) (auto simp: get_handler_def registered_def split: option.splits)

lemma sync_loop_None:
  "sync_loop put_ok rt rs n = (None, effs, n') \<Longrightarrow>
     effs = map (\<lambda>r. QueuePut (JStr TYPE_MODIFIED, JStr rt, r)) rs \<and> n' = n + length rs"
proof (induction rs arbitrary: n effs n')
  case Nil
  then show ?case by simp
next
  case (Cons r rs)
  from Cons.prems obtain effs1 where
    ok: "put_ok n" and rest: "sync_loop put_ok rt rs (Suc n) = (None, effs1, n')" and
    effs: "effs = QueuePut (JStr TYPE_MODIFIED, JStr rt, r) # effs1"
    by (auto simp: queue_put_def split: if_splits prod.splits)
  from Cons.IH [OF rest] effs show ?case by simp
qed

lemma sync_loop_puts_ok:
  "sync_loop put_ok rt rs n = (None, effs, n') \<Longrightarrow> \<forall>k<length rs. put_ok (n + k)"
proof (induction rs arbitrary: n effs n')
  case Nil
  then show ?case by simp
next
  case (Cons r rs)
  from Cons.prems obtain effs1 where
    ok: "put_ok n" and rest: "sync_loop put_ok rt rs (Suc n) = (None, effs1, n')"
    by (auto simp: queue_put_def split: if_splits prod.splits)
  from Cons.IH [OF rest] ok show ?case
    by (simp add: All_less_Suc2)
qed

lemma sync_loop_all_ok:
  "\<forall>k<length rs. put_ok (n + k) \<Longrightarrow>
     sync_loop put_ok rt rs n =
       (None, map (\<lambda>r. QueuePut (JStr TYPE_MODIFIED, JStr rt, r)) rs, n + length rs)"
proof (induction rs arbitrary: n)
  case Nil
  then show ?case by simp
next
  case (Cons r rs)
  then have ok: "put_ok n" and rest: "\<forall>k<length rs. put_ok (Suc n + k)"
    by (simp_all add: All_less_Suc2)
  from Cons.IH [OF rest] ok show ?case
    by (simp add: queue_put_def)
qed

lemma sync_loop_None_iff:
  "sync_loop put_ok rt rs n = (None, effs, n') \<longleftrightarrow>
     (\<forall>k<length rs. put_ok (n + k)) \<and>
     effs = map (\<lambda>r. QueuePut (JStr TYPE_MODIFIED, JStr rt, r)) rs \<and> n' = n + length rs"
  using sync_loop_puts_ok [of put_ok rt rs n effs n'] sync_loop_None [of put_ok rt rs n effs n']
    sync_loop_all_ok [of rs put_ok n rt]
  by auto

lemma py_iter_len: "py_iter x = Inr rs \<Longrightarrow> \<exists>l. py_len x = Inr l"
  by (cases x) auto

lemma watch_event_Inr:
  assumes "watch_event put_ok parsed n = (Inr (k, v), effs, n')"
  shows "\<exists>ev. effs = [QueuePut ev] \<and> embedded_cursor ev = Inr v"
proof -
  from assms obtain ty obj md where
    "effs = [QueuePut (ty, k, obj)]" "py_getitem obj ''metadata'' = Inr md"
    "py_getitem md ''resourceVersion'' = Inr v"
    by (auto simp: watch_event_def queue_put_def split: sum.splits if_splits)
  then show ?thesis by (simp add: embedded_cursor_def)
qed

lemma watch_lines_cursor:
  "watch_lines put_ok rt rv ls n = (Inr (rt', rv'), effs, n') \<Longrightarrow>
     (if enqueued effs = [] then rv' = rv
      else embedded_cursor (last (enqueued effs)) = Inr rv')"
proof (induction ls arbitrary: rt rv n effs)
  case Nil
  then show ?case by simp
next
  case (Cons l ls)
  show ?case
  proof (cases l)
    case Blank
    with Cons show ?thesis by simp
  next
    case Garbage
    with Cons.prems show ?thesis by simp
  next
    case (Doc parsed)
    with Cons.prems obtain k v effs1 n1 effs2 where
      ev: "watch_event put_ok parsed n = (Inr (k, v), effs1, n1)" and
      rest: "watch_lines put_ok k v ls n1 = (Inr (rt', rv'), effs2, n')" and
      effs: "effs = effs1 @ effs2"
      by (auto split: prod.splits sum.splits)
    from watch_event_Inr [OF ev] obtain e where
      e: "effs1 = [QueuePut e]" "embedded_cursor e = Inr v"
      by blast
    from Cons.IH [OF rest] e effs show ?thesis
      by (auto simp: enqueued_append)
  qed
qed

lemma watch_lines_prefix:
  "watch_lines put_ok rt rv (ls1 @ ls2) n = (Inr r2, effs, n2) \<Longrightarrow>
     \<exists>rt1 rv1 effs1 n1. watch_lines put_ok rt rv ls1 n = (Inr (rt1, rv1), effs1, n1)"
proof (induction ls1 arbitrary: rt rv n effs)
  case Nil
  then show ?case by simp
next
  case (Cons l ls)
  show ?case
  proof (cases l)
    case Blank
    with Cons show ?thesis by simp
  next
    case Garbage
    with Cons.prems show ?thesis by simp
  next
    case (Doc parsed)
    with Cons.prems obtain k v effs1 n1 effs2 where
      ev: "watch_event put_ok parsed n = (Inr (k, v), effs1, n1)" and
      rest: "watch_lines put_ok k v (ls @ ls2) n1 = (Inr r2, effs2, n2)"
      by (auto split: prod.splits sum.splits)
    from Cons.IH [OF rest] ev Doc show ?thesis by auto
  qed
qed

lemma list_before_watch_append:
  "list_before_watch ph (a @ b) =
     (list_before_watch ph a \<and> list_before_watch (phase_after ph a) b)"
  by (induction ph a rule: list_before_watch.induct) simp_all

lemma phase_after_append: "phase_after ph (a @ b) = phase_after (phase_after ph a) b"
  by (induction ph a rule: phase_after.induct) simp_all

lemma quiet_append: "quiet (a @ b) = (quiet a \<and> quiet b)"
  by (induction a rule: quiet.induct) simp_all

lemma quiet_phase: "quiet a \<Longrightarrow> list_before_watch ph a \<and> phase_after ph a = ph"
  by (induction a arbitrary: ph rule: quiet.induct) simp_all

lemma quiet_sync_loop: "sync_loop put_ok rt rs n = (r, effs, n') \<Longrightarrow> quiet effs"
proof (induction rs arbitrary: n r effs n')
  case Nil
  then show ?case by simp
next
  case (Cons x rs)
  show ?case
  proof (cases "put_ok n")
    case False
    with Cons.prems show ?thesis by (simp add: queue_put_def)
  next
    case True
    obtain r1 effs1 n1 where rest: "sync_loop put_ok rt rs (Suc n) = (r1, effs1, n1)"
      by (cases "sync_loop put_ok rt rs (Suc n)")
    from Cons.IH [OF rest] Cons.prems True rest show ?thesis
      by (auto simp: queue_put_def)
  qed
qed

lemma quiet_watch_event: "watch_event put_ok parsed n = (r, effs, n') \<Longrightarrow> quiet effs"
  by (auto simp: watch_event_def queue_put_def split: sum.splits if_splits)

lemma quiet_watch_lines: "watch_lines put_ok rt rv ls n = (r, effs, n') \<Longrightarrow> quiet effs"
proof (induction ls arbitrary: rt rv n r effs n')
  case Nil
  then show ?case by simp
next
  case (Cons l ls)
  show ?case
  proof (cases l)
    case Blank
    with Cons show ?thesis by simp
  next
    case Garbage
    with Cons.prems show ?thesis by simp
  next
    case (Doc parsed)
    obtain r1 effs1 n1 where ev: "watch_event put_ok parsed n = (r1, effs1, n1)"
      by (cases "watch_event put_ok parsed n")
    note q1 = quiet_watch_event [OF ev]
    show ?thesis
    proof (cases r1)
      case (Inl e)
      with Doc ev q1 Cons.prems show ?thesis by auto
    next
      case (Inr p)
      obtain k v where p: "p = (k, v)" by (cases p)
      obtain r2 effs2 n2 where w: "watch_lines put_ok k v ls n1 = (r2, effs2, n2)"
        by (cases "watch_lines put_ok k v ls n1")
      from Cons.IH [OF w] Doc ev Inr p q1 w Cons.prems show ?thesis
        by (auto simp: quiet_append)
    qed
  qed
qed

lemma quiet_manage_except: "quiet (manage_except rt e)"
  by (cases e) simp_all

lemma sync_resources_effects:
  "sync_resources put_ok url rt rep n = (r, effs, n') \<Longrightarrow>
     \<exists>t. effs = ApiGet (api_get url False JNull) # t \<and> quiet t"
  by (auto simp: sync_resources_def Let_def
      split: reply.splits option.splits sum.splits if_splits prod.splits
      dest: quiet_sync_loop)

lemma sync_resources_phase:
  assumes "sync_resources put_ok url rt rep n = (r, effs, n')"
  shows "list_before_watch ph effs \<and> phase_after ph effs = Watching"
proof -
  from sync_resources_effects [OF assms] obtain t where
    t: "effs = ApiGet (api_get url False JNull) # t" "quiet t" by blast
  from quiet_phase [OF t(2), of Watching] t(1) show ?thesis
    by (simp add: api_get_def)
qed

lemma watch_resource_phase:
  "watch_resource put_ok path rt rv reps n = (r, effs, rest', n') \<Longrightarrow>
     list_before_watch Watching effs \<and> phase_after Watching effs = Watching"
proof (induction reps arbitrary: rt rv n r effs rest' n')
  case Nil
  then show ?case by (auto simp: api_get_def)
next
  case (Cons rep reps)
  show ?case
  proof (cases rep)
    case (Raises e)
    with Cons.prems show ?thesis by (auto simp: api_get_def)
  next
    case (Response resp)
    show ?thesis
    proof (cases "status_code resp = 200")
      case False
      with Response Cons.prems show ?thesis by (auto simp: api_get_def)
    next
      case True
      obtain r1 effs1 n1 where wl:
        "watch_lines put_ok rt rv (iter_lines resp) n = (r1, effs1, n1)"
        by (cases "watch_lines put_ok rt rv (iter_lines resp) n")
      have q: "quiet effs1" using quiet_watch_lines [OF wl] .
      note qp = quiet_phase [OF q, of Watching]
      show ?thesis
      proof (cases r1)
        case (Inl e)
        with Response True wl Cons.prems qp show ?thesis by (auto simp: api_get_def)
      next
        case (Inr p)
        obtain k v where p: "p = (k, v)" by (cases p)
        show ?thesis
        proof (cases "stream_error resp")
          case (Some e)
          with Response True wl Inr p Cons.prems qp show ?thesis by (auto simp: api_get_def)
        next
          case None
          obtain r2 effs2 rest2 n2 where wr:
            "watch_resource put_ok path k v reps n1 = (r2, effs2, rest2, n2)"
            by (cases "watch_resource put_ok path k v reps n1") auto
          from Cons.IH [OF wr] Response True wl Inr p None wr Cons.prems qp
          show ?thesis
            by (auto simp: api_get_def list_before_watch_append phase_after_append)
        qed
      qed
    qed
  qed
qed

lemma manage_try_phase:
  assumes "manage_try put_ok get_url watch_url rt rep rest n = (r, effs, rest', n')"
  shows "list_before_watch ph effs \<and> phase_after ph effs = Watching"
proof -
  obtain r1 effs1 n1 where s: "sync_resources put_ok get_url rt rep n = (r1, effs1, n1)"
    by (cases "sync_resources put_ok get_url rt rep n")
  note sp = sync_resources_phase [OF s, of ph]
  show ?thesis
  proof (cases r1)
    case (Inl e)
    with assms s sp show ?thesis by (simp add: manage_try_def)
  next
    case (Inr v)
    obtain r2 effs2 rest2 n2 where wr:
      "watch_resource put_ok watch_url (JStr rt) v rest n1 = (r2, effs2, rest2, n2)"
      by (cases "watch_resource put_ok watch_url (JStr rt) v rest n1") auto
    from watch_resource_phase [OF wr] assms s sp Inr wr show ?thesis
      by (auto simp: manage_try_def list_before_watch_append phase_after_append)
  qed
qed

lemma manage_resource_protocol:
  "list_before_watch ph (manage_resource put_ok get_url watch_url rt reps n)"
proof (induction put_ok get_url watch_url rt reps n arbitrary: ph rule: manage_resource.induct)
  case (1 put_ok get_url watch_url rt n)
  show ?case by (simp add: api_get_def)
next
  case (2 put_ok get_url watch_url rt rep rest n)
  obtain r effs rest' n' where t:
    "manage_try put_ok get_url watch_url rt rep rest n = (r, effs, rest', n')"
    by (cases "manage_try put_ok get_url watch_url rt rep rest n") auto
  note tp = manage_try_phase [OF t, of ph]
  show ?case
  proof (cases r)
    case None
    with t tp show ?thesis by simp
  next
    case (Some e)
    have "list_before_watch Resync (manage_resource put_ok get_url watch_url rt rest' n')"
      using "2.IH" [OF t [symmetric] Some refl refl] .
    with t tp Some quiet_phase [OF quiet_manage_except, of Watching rt e] show ?thesis
      by (simp add: list_before_watch_append phase_after_append manage_finally_def)
  qed
qed

lemma watch_resource_stream:
  "watch_resource put_ok path rt rv (rep # rest) n =
     (case watch_stream put_ok path rt rv rep n of
        (Inl e, effs, n') \<Rightarrow> (Some e, effs, rest, n')
      | (Inr (rt', rv'), effs, n') \<Rightarrow>
          (case watch_resource put_ok path rt' rv' rest n' of
             (r, effs', rest', n'') \<Rightarrow> (r, effs @ effs', rest', n'')))"
  by (simp add: watch_stream_def Let_def
      split: reply.splits prod.splits sum.splits option.splits)

lemma watch_resource_first:
  "\<exists>r t rest' n'. watch_resource put_ok path rt rv reps n =
     (r, ApiGet (api_get path True rv) # t, rest', n')"
proof (cases reps)
  case Nil
  then show ?thesis by simp
next
  case (Cons rep rest)
  then show ?thesis
    by (auto simp: Let_def split: reply.splits prod.splits sum.splits option.splits)
qed

lemma manage_resource_first:
  "\<exists>t. manage_resource put_ok get_url watch_url rt reps m =
     ApiGet (api_get get_url False JNull) # t"
proof (cases reps)
  case Nil
  then show ?thesis by simp
next
  case (Cons r rs)
  obtain x effs1 n1 where s: "sync_resources put_ok get_url rt r m = (x, effs1, n1)"
    by (cases "sync_resources put_ok get_url rt r m")
  then obtain t where "effs1 = ApiGet (api_get get_url False JNull) # t"
    using sync_resources_effects by blast
  with s Cons show ?thesis
    by (auto simp: manage_try_def split: sum.splits prod.splits option.splits)
qed

lemma watch_resource_clean_prefix:
  "clean_streams put_ok path rt rv pre n = Some (rt1, rv1, effs1, n1) \<Longrightarrow>
     watch_resource put_ok path rt rv (pre @ reps) n =
       (case watch_resource put_ok path rt1 rv1 reps n1 of
          (r, effs', rest', n') \<Rightarrow> (r, effs1 @ effs', rest', n'))"
proof (induction pre arbitrary: rt rv n effs1)
  case Nil
  then show ?case by (simp split: prod.splits)
next
  case (Cons rep pre)
  from Cons.prems obtain rt' rv' effs n' effs' where
    s: "watch_stream put_ok path rt rv rep n = (Inr (rt', rv'), effs, n')" and
    c: "clean_streams put_ok path rt' rv' pre n' = Some (rt1, rv1, effs', n1)" and
    e: "effs1 = effs @ effs'"
    by (auto split: prod.splits sum.splits option.splits)
  have "watch_resource put_ok path rt rv ((rep # pre) @ reps) n =
      (case watch_resource put_ok path rt' rv' (pre @ reps) n' of
         (r, effs'', rest', n'') \<Rightarrow> (r, effs @ effs'', rest', n''))"
    using s by (simp add: watch_resource_stream del: watch_resource.simps split: prod.splits)
  with Cons.IH [OF c] e show ?case
    by (simp split: prod.splits)
qed

lemma watch_event_enqueued:
  "(et, k, res) \<in> set (enqueued (fst (snd (watch_event put_ok parsed n)))) \<Longrightarrow>
     py_getitem parsed ''type'' = Inr et \<and> py_getitem parsed ''object'' = Inr res \<and>
     py_getitem res ''kind'' = Inr k \<and>
     (\<exists>md nm. py_getitem res ''metadata'' = Inr md \<and> py_getitem md ''name'' = Inr nm)"
  by (auto simp: watch_event_def queue_put_def split: sum.splits if_splits)

lemma watch_lines_enqueued:
  "(et, k, res) \<in> set (enqueued (fst (snd (watch_lines put_ok rt rv ls n)))) \<Longrightarrow>
     \<exists>parsed. Doc parsed \<in> set ls \<and>
     py_getitem parsed ''type'' = Inr et \<and> py_getitem parsed ''object'' = Inr res \<and>
     py_getitem res ''kind'' = Inr k \<and>
     (\<exists>md nm. py_getitem res ''metadata'' = Inr md \<and> py_getitem md ''name'' = Inr nm)"
proof (induction ls arbitrary: rt rv n)
  case Nil
  then show ?case by simp
next
  case (Cons l ls)
  show ?case
  proof (cases l)
    case Blank
    with Cons show ?thesis by auto
  next
    case Garbage
    with Cons.prems show ?thesis by simp
  next
    case (Doc parsed)
    obtain r effs1 n1 where fields: "watch_event put_ok parsed n = (r, effs1, n1)"
      by (cases "watch_event put_ok parsed n")
    show ?thesis
    proof (cases r)
      case (Inl e)
      with fields Doc Cons.prems watch_event_enqueued [of et k res put_ok parsed n]
      show ?thesis by auto
    next
      case (Inr p)
      obtain k' v where p: "p = (k', v)" by (cases p)
      obtain r2 effs2 n2 where w: "watch_lines put_ok k' v ls n1 = (r2, effs2, n2)"
        by (cases "watch_lines put_ok k' v ls n1")
      from Cons.prems Doc fields Inr p w
      have "(et, k, res) \<in> set (enqueued effs1) \<or> (et, k, res) \<in> set (enqueued effs2)"
        by (auto simp: enqueued_append)
      then show ?thesis
      proof
        assume "(et, k, res) \<in> set (enqueued effs1)"
        with fields Doc watch_event_enqueued [of et k res put_ok parsed n] show ?thesis
          by auto
      next
        assume "(et, k, res) \<in> set (enqueued effs2)"
        with Cons.IH [of k' v n1] w show ?thesis by auto
      qed
    qed
  qed
qed

lemma sync_loop_timeout:
  "sync_loop put_ok rt rs n = (r, effs, n') \<Longrightarrow>
     n \<le> n' \<and> (\<forall>k. n \<le> k \<and> k < n' \<and> \<not> put_ok k \<longrightarrow> r = Some Full)"
proof (induction rs arbitrary: n r effs n')
  case Nil
  then show ?case by simp
next
  case (Cons x rs)
  show ?case
  proof (cases "put_ok n")
    case False
    with Cons.prems show ?thesis by (auto simp: queue_put_def)
  next
    case True
    obtain r1 effs1 n1 where rest: "sync_loop put_ok rt rs (Suc n) = (r1, effs1, n1)"
      by (cases "sync_loop put_ok rt rs (Suc n)")
    from Cons.prems True rest have eq: "r = r1" "n' = n1"
      by (simp_all add: queue_put_def)
    have "k = n \<or> Suc n \<le> k" if "n \<le> k" for k
      using that by arith
    with Cons.IH [OF rest] True eq show ?thesis
      by auto
  qed
qed

lemma sync_resources_timeout:
  "sync_resources put_ok url rt rep n = (r, effs, n') \<Longrightarrow>
     n \<le> n' \<and> (\<forall>k. n \<le> k \<and> k < n' \<and> \<not> put_ok k \<longrightarrow> r = Inl Full)"
  by (auto simp: sync_resources_def Let_def
      split: reply.splits option.splits sum.splits if_splits prod.splits
      dest!: sync_loop_timeout)

lemma watch_event_timeout:
  "watch_event put_ok parsed n = (r, effs, n') \<Longrightarrow>
     n \<le> n' \<and> (\<forall>k. n \<le> k \<and> k < n' \<and> \<not> put_ok k \<longrightarrow> r = Inl Full)"
proof -
  assume a: "watch_event put_ok parsed n = (r, effs, n')"
  then have "n' = n \<or> (n' = Suc n \<and> (\<not> put_ok n \<longrightarrow> r = Inl Full))"
    by (auto simp: watch_event_def queue_put_def split: sum.splits if_splits)
  then show ?thesis
    by (auto simp: less_Suc_eq_le dest: le_antisym)
qed

lemma watch_lines_timeout:
  "watch_lines put_ok rt rv ls n = (r, effs, n') \<Longrightarrow>
     n \<le> n' \<and> (\<forall>k. n \<le> k \<and> k < n' \<and> \<not> put_ok k \<longrightarrow> r = Inl Full)"
proof (induction ls arbitrary: rt rv n r effs n')
  case Nil
  then show ?case by (auto simp: not_less [symmetric])
next
  case (Cons l ls)
  show ?case
  proof (cases l)
    case Blank
    with Cons show ?thesis by simp
  next
    case Garbage
    with Cons.prems show ?thesis by (auto simp: not_less [symmetric])
  next
    case (Doc parsed)
    obtain r1 effs1 n1 where ev: "watch_event put_ok parsed n = (r1, effs1, n1)"
      by (cases "watch_event put_ok parsed n")
    note e = watch_event_timeout [OF ev]
    show ?thesis
    proof (cases r1)
      case (Inl x)
      with Doc ev e Cons.prems show ?thesis by auto
    next
      case (Inr p)
      obtain k' v where p: "p = (k', v)" by (cases p)
      obtain r2 effs2 n2 where w: "watch_lines put_ok k' v ls n1 = (r2, effs2, n2)"
        by (cases "watch_lines put_ok k' v ls n1")
      from Cons.prems Doc ev Inr p w have eq: "r = r2" "n' = n2" by simp_all
      have "k < n1 \<or> n1 \<le> k" for k by arith
      with Cons.IH [OF w] e Inr eq show ?thesis
        by (metis le_trans sum.distinct(1))
    qed
  qed
qed

lemma watch_resource_timeout:
  "watch_resource put_ok path rt rv reps n = (r, effs, rest', n') \<Longrightarrow>
     n \<le> n' \<and> (\<forall>k. n \<le> k \<and> k < n' \<and> \<not> put_ok k \<longrightarrow> r = Some Full)"
proof (induction reps arbitrary: rt rv n r effs rest' n')
  case Nil
  then show ?case by simp
next
  case (Cons rep reps)
  show ?case
  proof (cases rep)
    case (Raises e)
    with Cons.prems show ?thesis by auto
  next
    case (Response resp)
    show ?thesis
    proof (cases "status_code resp = 200")
      case False
      with Response Cons.prems show ?thesis by auto
    next
      case True
      obtain r1 effs1 n1 where wl:
        "watch_lines put_ok rt rv (iter_lines resp) n = (r1, effs1, n1)"
        by (cases "watch_lines put_ok rt rv (iter_lines resp) n")
      note l = watch_lines_timeout [OF wl]
      show ?thesis
      proof (cases r1)
        case (Inl e)
        with Response True wl Cons.prems l show ?thesis by auto
      next
        case (Inr p)
        obtain k' v where p: "p = (k', v)" by (cases p)
        from l Inr have none: "\<forall>k. n \<le> k \<and> k < n1 \<longrightarrow> put_ok k" by auto
        show ?thesis
        proof (cases "stream_error resp")
          case (Some e)
          with Response True wl Inr p Cons.prems l none show ?thesis by auto
        next
          case None
          obtain r2 effs2 rest2 n2 where wr:
            "watch_resource put_ok path k' v reps n1 = (r2, effs2, rest2, n2)"
            by (cases "watch_resource put_ok path k' v reps n1") auto
          from Response True wl Inr p None wr Cons.prems have eq: "r = r2" "n' = n2"
            by simp_all
          have "k < n1 \<or> n1 \<le> k" for k by arith
          with Cons.IH [OF wr] l none eq show ?thesis
            by (metis le_trans)
        qed
      qed
    qed
  qed
qed

lemma manage_try_timeout:
  assumes "manage_try put_ok get_url watch_url rt rep rest n = (r, effs, rest', n')"
      and "n \<le> k" "k < n'" "\<not> put_ok k"
  shows "r = Some Full"
proof -
  obtain r1 effs1 n1 where s: "sync_resources put_ok get_url rt rep n = (r1, effs1, n1)"
    by (cases "sync_resources put_ok get_url rt rep n")
  note sp = sync_resources_timeout [OF s]
  show ?thesis
  proof (cases r1)
    case (Inl e)
    with assms s sp show ?thesis by (auto simp: manage_try_def)
  next
    case (Inr v)
    obtain r2 effs2 rest2 n2 where wr:
      "watch_resource put_ok watch_url (JStr rt) v rest n1 = (r2, effs2, rest2, n2)"
      by (cases "watch_resource put_ok watch_url (JStr rt) v rest n1") auto
    from assms(1) s Inr wr have eq: "r = r2" "n' = n2" by (simp_all add: manage_try_def)
    from sp Inr have none: "\<forall>k. n \<le> k \<and> k < n1 \<longrightarrow> put_ok k" by auto
    have "k < n1 \<or> n1 \<le> k" by arith
    with watch_resource_timeout [OF wr] none eq assms(2-4) show ?thesis
      by auto
  qed
qed

section \<open>Resync\<close>

text \<open>
  Claim C1. \<^verbatim>\<open>_sync_resources\<close> returns exactly when the list call is answered with
  status 200 and a body whose items can be iterated and whose metadata can be read, and
  every put finds room before its timeout. Its effects are then the list request followed
  by exactly one put per item of the list, in the list's order, each with event type
  \<open>MODIFIED\<close> (never \<open>ADDED\<close>) and the session's resource type. The function keeps no
  record of resources seen before, so this holds whether or not a resource is new.
\<close>

theorem sync_enqueues_modified:
  "sync_resources put_ok url rt rep n = (Inr rv, effs, n') \<longleftrightarrow>
     (\<exists>resp body items metadata rs.
        rep = Response resp \<and> status_code resp = 200 \<and> resp_json resp = Some body \<and>
        py_getitem body ''items'' = Inr items \<and>
        py_get body ''metadata'' (JObj []) = Inr metadata \<and>
        py_get metadata ''resourceVersion'' JNull = Inr rv \<and>
        py_iter items = Inr rs \<and>
        (\<forall>k<length rs. put_ok (n + k)) \<and>
        effs = ApiGet (api_get url False JNull) #
               map (\<lambda>r. QueuePut (JStr TYPE_MODIFIED, JStr rt, r)) rs \<and>
        n' = n + length rs)"
  (is "?L \<longleftrightarrow> ?R")
proof
  assume ?L
  then show ?R
    by (auto simp: sync_resources_def Let_def sync_loop_None_iff
        split: reply.splits option.splits sum.splits if_splits prod.splits)
next
  assume ?R
  then obtain resp body items metadata rs where
    r: "rep = Response resp" "status_code resp = 200" "resp_json resp = Some body"
       "py_getitem body ''items'' = Inr items"
       "py_get body ''metadata'' (JObj []) = Inr metadata"
       "py_get metadata ''resourceVersion'' JNull = Inr rv"
       "py_iter items = Inr rs" and
    loop: "sync_loop put_ok rt rs n =
       (None, map (\<lambda>r. QueuePut (JStr TYPE_MODIFIED, JStr rt, r)) rs, n + length rs)" and
    e: "effs = ApiGet (api_get url False JNull) #
               map (\<lambda>r. QueuePut (JStr TYPE_MODIFIED, JStr rt, r)) rs" "n' = n + length rs"
    by (auto simp: sync_loop_None_iff)
  from py_iter_len [OF r(7)] obtain l where l: "py_len items = Inr l" by blast
  from r l loop e show ?L
    by (simp add: sync_resources_def Let_def)
qed

theorem sync_enqueues_modified_witness:
  "sync_resources (\<lambda>n. True) ''/api/v1/pods'' ''Pod''
      (list_reply [pod ''a'' ''5'', pod ''b'' ''6''] ''7'') 0 =
     (Inr (JStr ''7''),
      [ApiGet \<lparr>req_path = ''/api/v1/pods'', req_version = None, req_stream = False\<rparr>,
       QueuePut (JStr ''MODIFIED'', JStr ''Pod'', pod ''a'' ''5''),
       QueuePut (JStr ''MODIFIED'', JStr ''Pod'', pod ''b'' ''6'')], 2)"
proof -
  have "\<exists>resp body items metadata rs.
        list_reply [pod ''a'' ''5'', pod ''b'' ''6''] ''7'' = Response resp \<and>
        status_code resp = 200 \<and> resp_json resp = Some body \<and>
        py_getitem body ''items'' = Inr items \<and>
        py_get body ''metadata'' (JObj []) = Inr metadata \<and>
        py_get metadata ''resourceVersion'' JNull = Inr (JStr ''7'') \<and>
        py_iter items = Inr rs \<and>
        (\<forall>k<length rs. (\<lambda>n. True) (0 + k)) \<and>
        [ApiGet \<lparr>req_path = ''/api/v1/pods'', req_version = None, req_stream = False\<rparr>,
         QueuePut (JStr ''MODIFIED'', JStr ''Pod'', pod ''a'' ''5''),
         QueuePut (JStr ''MODIFIED'', JStr ''Pod'', pod ''b'' ''6'')] =
          ApiGet (api_get ''/api/v1/pods'' False JNull) #
               map (\<lambda>r. QueuePut (JStr TYPE_MODIFIED, JStr ''Pod'', r)) rs \<and>
        2 = 0 + length rs"
    by (simp add: list_reply_def api_get_def TYPE_MODIFIED_def)
  then show ?thesis
    by (rule sync_enqueues_modified [THEN iffD2])
qed

section \<open>Cursor of a watch stream\<close>

text \<open>
  Claim C8. Take a watch stream whose lines are all processed without an exception, and
  any point of it (the lines \<open>ls1\<close> read so far). The lines read so far were processed
  without an exception too, and the \<^verbatim>\<open>resource_version\<close> the session holds at that
  point is the cursor embedded in the resource of the event it enqueued last; it is the
  version the watch started from when nothing has been enqueued yet.
\<close>

theorem cursor_tracks_last_event:
  assumes "watch_lines put_ok rt rv (ls1 @ ls2) n = (Inr r2, effs, n2)"
  shows "\<exists>rt1 rv1 effs1 n1.
           watch_lines put_ok rt rv ls1 n = (Inr (rt1, rv1), effs1, n1) \<and>
           (if enqueued effs1 = [] then rv1 = rv
            else embedded_cursor (last (enqueued effs1)) = Inr rv1)"
proof -
  from watch_lines_prefix [OF assms] obtain rt1 rv1 effs1 n1 where
    p: "watch_lines put_ok rt rv ls1 n = (Inr (rt1, rv1), effs1, n1)" by blast
  from watch_lines_cursor [OF p] p show ?thesis by blast
qed

theorem cursor_tracks_last_event_witness:
  "watch_lines (\<lambda>n. True) (JStr ''Pod'') (JStr ''7'')
      [Doc (watch_doc ''ADDED'' (pod ''a'' ''8'')), Blank,
       Doc (watch_doc ''MODIFIED'' (pod ''a'' ''9''))] 0 =
     (Inr (JStr ''Pod'', JStr ''9''),
      [QueuePut (JStr ''ADDED'', JStr ''Pod'', pod ''a'' ''8''),
       QueuePut (JStr ''MODIFIED'', JStr ''Pod'', pod ''a'' ''9'')], 2) \<and>
   embedded_cursor (JStr ''MODIFIED'', JStr ''Pod'', pod ''a'' ''9'') = Inr (JStr ''9'')"
proof -
  have run: "watch_lines (\<lambda>n. True) (JStr ''Pod'') (JStr ''7'')
      ([Doc (watch_doc ''ADDED'' (pod ''a'' ''8'')), Blank,
        Doc (watch_doc ''MODIFIED'' (pod ''a'' ''9''))] @ []) 0 =
     (Inr (JStr ''Pod'', JStr ''9''),
      [QueuePut (JStr ''ADDED'', JStr ''Pod'', pod ''a'' ''8''),
       QueuePut (JStr ''MODIFIED'', JStr ''Pod'', pod ''a'' ''9'')], 2)"
    by (simp add: watch_event_def queue_put_def pod_def watch_doc_def TYPE_ERROR_def)
  from cursor_tracks_last_event [OF run] run show ?thesis
    by auto
qed

section \<open>Dispatcher\<close>

text \<open>
  Claim C5. Let the dispatcher take an update whose name can be read and for which a
  handler is registered, and let that handler raise \<open>e\<close>. If \<open>e\<close> is \<^verbatim>\<open>KeyError\<close>
  (the data-shape error), it is logged with the resource, \<^verbatim>\<open>task_done\<close> is called and
  the loop goes on with the rest of the queue. Otherwise \<open>e\<close> leaves the loop after
  \<^verbatim>\<open>task_done\<close>: \<^verbatim>\<open>read_updates\<close> ends with \<open>e\<close> and no later update is handled.
\<close>

theorem handler_errors:
  assumes "py_getitem resource ''metadata'' = Inr metadata"
      and "py_getitem metadata ''name'' = Inr name"
      and "get_handler handlers resource_type event_type = Inr handler"
      and "handler st resource = (Some e, st')"
  shows "read_updates handlers st ((event_type, resource_type, resource) # rest) =
     (if e = KeyError then
        (case read_updates handlers st' rest of
           (r, st'', effs) \<Rightarrow>
             (r, st'',
              [Invoke resource_type event_type resource,
               Log EXCEPTION ''Invalid %s: %s'' [resource_type, resource],
               TaskDone] @ effs))
      else (Some e, st', [Invoke resource_type event_type resource, TaskDone]))"
proof -
  obtain kvs where md: "metadata = JObj kvs"
    using assms(2) py_getitem_Inr by blast
  show ?thesis
  proof (cases "e = KeyError")
    case True
    then have "process_update handlers st (event_type, resource_type, resource) =
        (None, st', [Invoke resource_type event_type resource,
               Log EXCEPTION ''Invalid %s: %s'' [resource_type, resource]])"
      using assms md by (simp add: process_update_def)
    with True show ?thesis by (simp split: prod.splits)
  next
    case False
    then have "process_update handlers st (event_type, resource_type, resource) =
        (Some e, st', [Invoke resource_type event_type resource])"
      using assms md by (cases e) (simp_all add: process_update_def)
    with False show ?thesis by (cases e) simp_all
  qed
qed

theorem handler_errors_witness:
  "read_updates raising_handlers 0
     [(JStr ''ADDED'', JStr ''Pod'', pod ''a'' ''5''),
      (JStr ''DELETED'', JStr ''Pod'', pod ''a'' ''6''),
      (JStr ''ADDED'', JStr ''Pod'', pod ''b'' ''7'')] =
   (Some TypeError, 1,
    [Invoke (JStr ''Pod'') (JStr ''ADDED'') (pod ''a'' ''5''),
     Log EXCEPTION ''Invalid %s: %s'' [JStr ''Pod'', pod ''a'' ''5''],
     TaskDone,
     Invoke (JStr ''Pod'') (JStr ''DELETED'') (pod ''a'' ''6''),
     TaskDone])"
proof -
  have md: "py_getitem (pod ''a'' v) ''metadata'' =
      Inr (JObj [(''name'', JStr ''a''), (''resourceVersion'', JStr v)])" for v
    by (simp add: pod_def)
  have nm: "py_getitem (JObj [(''name'', JStr ''a''), (''resourceVersion'', JStr v)]) ''name'' =
      Inr (JStr ''a'')" for v
    by simp
  have h1: "get_handler raising_handlers (JStr ''Pod'') (JStr ''ADDED'') =
      Inr (\<lambda>st resource. (Some KeyError, Suc st))"
    by (simp add: raising_handlers_def add_handler_def get_handler_def)
  have h2: "get_handler raising_handlers (JStr ''Pod'') (JStr ''DELETED'') =
      Inr (\<lambda>st resource. (Some TypeError, st))"
    by (simp add: raising_handlers_def add_handler_def get_handler_def)
  have r1: "(\<lambda>st resource. (Some KeyError, Suc st)) (0::nat) (pod ''a'' ''5'') =
      (Some KeyError, 1)"
    by simp
  have r2: "(\<lambda>st resource. (Some TypeError, st)) (1::nat) (pod ''a'' ''6'') =
      (Some TypeError, 1)"
    by simp
  show ?thesis
    using handler_errors [OF md nm h1 r1] handler_errors [OF md nm h2 r2]
    by simp
qed

text \<open>
  Claim C6 (as amended). A resource that is a document without the key \<open>metadata\<close>, or
  whose \<open>metadata\<close> is a document without the key \<open>name\<close>, makes \<^verbatim>\<open>_process_update\<close>
  raise \<^verbatim>\<open>KeyError\<close>; \<^verbatim>\<open>read_updates\<close> catches it, logs the update, calls
  \<^verbatim>\<open>task_done\<close> and goes on with the rest of the queue: no handler is called and the
  controller state is unchanged.
\<close>

theorem missing_identity_isolated:
  assumes "py_getitem resource ''metadata'' = Inl KeyError \<or>
           (\<exists>metadata. py_getitem resource ''metadata'' = Inr metadata \<and>
                        py_getitem metadata ''name'' = Inl KeyError)"
  shows "read_updates handlers st ((event_type, resource_type, resource) # rest) =
     (case read_updates handlers st rest of
        (r, st', effs) \<Rightarrow>
          (r, st',
           [Log EXCEPTION ''Invalid update: %s'' [event_type, resource_type, resource],
            TaskDone] @ effs))"
proof -
  have "process_update handlers st (event_type, resource_type, resource) =
      (Some KeyError, st, [])"
    using assms by (auto simp: process_update_def)
  then show ?thesis by (simp split: prod.splits)
qed

theorem missing_identity_isolated_witness:
  "read_updates counting_handlers 0
     [(JStr ''MODIFIED'', JStr ''Pod'', JObj [(''metadata'', JObj [])]),
      (JStr ''ADDED'', JStr ''Pod'', pod ''a'' ''5'')] =
   (None, 1,
    [Log EXCEPTION ''Invalid update: %s''
       [JStr ''MODIFIED'', JStr ''Pod'', JObj [(''metadata'', JObj [])]],
     TaskDone,
     Invoke (JStr ''Pod'') (JStr ''ADDED'') (pod ''a'' ''5''),
     Log INFO ''Handled %s for %s: %s''
       [JStr ''ADDED'', JStr ''Pod'', JArr [JNull, JStr ''a'']],
     TaskDone])"
proof -
  have h: "py_getitem (JObj [(''metadata'', JObj [])]) ''metadata'' = Inl KeyError \<or>
           (\<exists>metadata. py_getitem (JObj [(''metadata'', JObj [])]) ''metadata'' = Inr metadata \<and>
                        py_getitem metadata ''name'' = Inl KeyError)"
    by simp
  show ?thesis
    using missing_identity_isolated [OF h]
    by (simp add: process_update_def example_defs)
qed

text \<open>
  The claim as stated fails for a resource that is malformed in another way: with
  \<open>metadata\<close> null, \<^verbatim>\<open>resource["metadata"]["name"]\<close> raises \<^verbatim>\<open>TypeError\<close>, which
  \<^verbatim>\<open>read_updates\<close> does not catch. The loop ends with it and the well-formed update
  behind it is never handled.
\<close>

theorem malformed_metadata_is_fatal:
  "read_updates counting_handlers 0
     [(JStr ''MODIFIED'', JStr ''Pod'', JObj [(''metadata'', JNull)]),
      (JStr ''ADDED'', JStr ''Pod'', pod ''a'' ''5'')] =
   (Some TypeError, 0, [TaskDone])"
  by (simp add: process_update_def)

text \<open>
  Claim C7. Let the dispatcher take an update whose name can be read, whose event type
  and resource type are hashable tags, and for whose pair no handler is registered. It
  logs the warning, calls no handler, leaves the controller state as it is, calls
  \<^verbatim>\<open>task_done\<close> and goes on with the rest of the queue; the update by itself never
  ends the loop.
\<close>

theorem unregistered_pair_dropped:
  assumes "py_getitem resource ''metadata'' = Inr metadata"
      and "py_getitem metadata ''name'' = Inr name"
      and "py_hashable resource_type" and "py_hashable event_type"
      and "\<not> registered handlers resource_type event_type"
  shows "read_updates handlers st ((event_type, resource_type, resource) # rest) =
     (case read_updates handlers st rest of
        (r, st', effs) \<Rightarrow>
          (r, st',
           [Log WARNING ''No %s handlers for: %s'' [event_type, resource_type],
            TaskDone] @ effs))"
proof -
  obtain kvs where md: "metadata = JObj kvs"
    using assms(2) py_getitem_Inr by blast
  have "process_update handlers st (event_type, resource_type, resource) =
      (None, st, [Log WARNING ''No %s handlers for: %s'' [event_type, resource_type]])"
    using assms(1,2) md get_handler_unregistered [OF assms(3,4,5)]
    by (simp add: process_update_def)
  then show ?thesis by (simp split: prod.splits)
qed

theorem unregistered_pair_dropped_witness:
  "read_updates counting_handlers 0
     [(JStr ''BOOKMARK'', JStr ''Pod'', pod ''a'' ''5''),
      (JStr ''ADDED'', JStr ''Service'', pod ''b'' ''6''),
      (JStr ''DELETED'', JStr ''Pod'', pod ''a'' ''7'')] =
   (None, 1,
    [Log WARNING ''No %s handlers for: %s'' [JStr ''BOOKMARK'', JStr ''Pod''],
     TaskDone,
     Log WARNING ''No %s handlers for: %s'' [JStr ''ADDED'', JStr ''Service''],
     TaskDone,
     Invoke (JStr ''Pod'') (JStr ''DELETED'') (pod ''a'' ''7''),
     Log INFO ''Handled %s for %s: %s''
       [JStr ''DELETED'', JStr ''Pod'', JArr [JNull, JStr ''a'']],
     TaskDone])"
proof -
  have md: "py_getitem (pod n v) ''metadata'' =
      Inr (JObj [(''name'', JStr n), (''resourceVersion'', JStr v)])" for n v
    by (simp add: pod_def)
  have nm: "py_getitem (JObj [(''name'', JStr n), (''resourceVersion'', JStr v)]) ''name'' =
      Inr (JStr n)" for n v
    by simp
  have u1: "\<not> registered counting_handlers (JStr ''Pod'') (JStr ''BOOKMARK'')"
    by (simp add: registered_def example_defs)
  have u2: "\<not> registered counting_handlers (JStr ''Service'') (JStr ''ADDED'')"
    by (simp add: registered_def example_defs)
  have hp: "py_hashable (JStr s)" for s
    by simp
  show ?thesis
    using unregistered_pair_dropped [OF md nm hp hp u1]
      unregistered_pair_dropped [OF md nm hp hp u2]
    by (simp add: process_update_def example_defs)
qed

section \<open>Recovery of a watch session\<close>

text \<open>
  Claim C3 (as amended). Take any run of a watch session and any watch stream in it: the
  list call \<open>rep0\<close> succeeded, the streams \<open>pre\<close> after it ended cleanly, and \<open>rep\<close>
  is the reply to the next watch request. If that stream ends with an exception
  (connection or chunked-encoding error, status other than 200, ERROR event, queue full,
  or any other), the watch loop sends no further request: the session logs the
  exception, logs the restart, sleeps one second, and its next request is the list
  request, sent without a \<^verbatim>\<open>resourceVersion\<close>. If the stream ends without an
  exception, the next request is a watch request from the cursor the stream left, with
  no list request in between. In every case a watch request is never the first request
  of the run or the first after a restart.
\<close>

theorem stream_end_decides_next_request:
  assumes "sync_resources put_ok get_url rt rep0 n = (Inr rv0, effs0, n0)"
      and "clean_streams put_ok watch_url (JStr rt) rv0 pre n0 = Some (rt1, rv1, effs1, n1)"
      and "watch_stream put_ok watch_url rt1 rv1 rep n1 = (res, effs2, n2)"
  shows "(case res of
            Inl e \<Rightarrow>
              manage_resource put_ok get_url watch_url rt (rep0 # pre @ rep # post) n =
                effs0 @ effs1 @ effs2 @ manage_except rt e @
                [Log WARNING ''Re-starting watch on resource: %s'' [JStr rt], Sleep 1] @
                manage_resource put_ok get_url watch_url rt post n2 \<and>
              (\<exists>t. manage_resource put_ok get_url watch_url rt post n2 =
                 ApiGet \<lparr>req_path = get_url, req_version = None, req_stream = False\<rparr> # t)
          | Inr (rt2, rv2) \<Rightarrow>
              (\<exists>t. manage_resource put_ok get_url watch_url rt (rep0 # pre @ rep # post) n =
                 effs0 @ effs1 @ effs2 @ ApiGet (api_get watch_url True rv2) # t)) \<and>
         list_before_watch Resync
           (manage_resource put_ok get_url watch_url rt (rep0 # pre @ rep # post) n)"
proof -
  have wr: "watch_resource put_ok watch_url (JStr rt) rv0 (pre @ rep # post) n0 =
       (case watch_resource put_ok watch_url rt1 rv1 (rep # post) n1 of
          (r, effs', rest', n') \<Rightarrow> (r, effs1 @ effs', rest', n'))"
    using watch_resource_clean_prefix [OF assms(2)] .
  have first: "\<exists>t. manage_resource put_ok get_url watch_url rt post n2 =
       ApiGet \<lparr>req_path = get_url, req_version = None, req_stream = False\<rparr> # t"
    using manage_resource_first [of put_ok get_url watch_url rt post n2]
    by (simp add: api_get_def)
  have main: "case res of
            Inl e \<Rightarrow>
              manage_resource put_ok get_url watch_url rt (rep0 # pre @ rep # post) n =
                effs0 @ effs1 @ effs2 @ manage_except rt e @
                [Log WARNING ''Re-starting watch on resource: %s'' [JStr rt], Sleep 1] @
                manage_resource put_ok get_url watch_url rt post n2 \<and>
              (\<exists>t. manage_resource put_ok get_url watch_url rt post n2 =
                 ApiGet \<lparr>req_path = get_url, req_version = None, req_stream = False\<rparr> # t)
          | Inr (rt2, rv2) \<Rightarrow>
              (\<exists>t. manage_resource put_ok get_url watch_url rt (rep0 # pre @ rep # post) n =
                 effs0 @ effs1 @ effs2 @ ApiGet (api_get watch_url True rv2) # t)"
  proof (cases res)
    case (Inl e)
    with assms(3) have "watch_resource put_ok watch_url rt1 rv1 (rep # post) n1 =
        (Some e, effs2, post, n2)"
      by (simp add: watch_resource_stream del: watch_resource.simps)
    with wr have "manage_try put_ok get_url watch_url rt rep0 (pre @ rep # post) n =
        (Some e, effs0 @ effs1 @ effs2, post, n2)"
      using assms(1) by (simp add: manage_try_def)
    with Inl first show ?thesis
      by (simp add: manage_finally_def)
  next
    case (Inr p)
    obtain rt2 rv2 where p: "p = (rt2, rv2)" by (cases p)
    from watch_resource_first [of put_ok watch_url rt2 rv2 post n2] obtain r t rest' n' where
      nxt: "watch_resource put_ok watch_url rt2 rv2 post n2 =
        (r, ApiGet (api_get watch_url True rv2) # t, rest', n')" by blast
    with assms(3) Inr p have "watch_resource put_ok watch_url rt1 rv1 (rep # post) n1 =
        (r, effs2 @ ApiGet (api_get watch_url True rv2) # t, rest', n')"
      by (simp add: watch_resource_stream del: watch_resource.simps)
    with wr have mt: "manage_try put_ok get_url watch_url rt rep0 (pre @ rep # post) n =
        (r, effs0 @ effs1 @ effs2 @ ApiGet (api_get watch_url True rv2) # t, rest', n')"
      using assms(1) by (simp add: manage_try_def)
    have "\<exists>t. manage_resource put_ok get_url watch_url rt (rep0 # pre @ rep # post) n =
                 effs0 @ effs1 @ effs2 @ ApiGet (api_get watch_url True rv2) # t"
    proof (cases r)
      case None
      with mt show ?thesis by simp
    next
      case (Some e)
      with mt show ?thesis by simp
    qed
    with Inr p show ?thesis by simp
  qed
  from main manage_resource_protocol show ?thesis by blast
qed

theorem stream_end_decides_next_request_witness:
  "manage_resource (\<lambda>n. True) ''/pods'' ''/watch/pods'' ''Pod''
     (list_reply [] ''1'' #
      [stream_reply [Doc (watch_doc ''ADDED'' (pod ''a'' ''5''))] None] @
      stream_reply [Doc (watch_doc ''MODIFIED'' (pod ''a'' ''6''))]
        (Some ChunkedEncodingError) #
      [list_reply [pod ''a'' ''6''] ''7'']) 0 =
   [ApiGet \<lparr>req_path = ''/pods'', req_version = None, req_stream = False\<rparr>,
    ApiGet \<lparr>req_path = ''/watch/pods'', req_version = Some (JStr ''1''), req_stream = True\<rparr>,
    QueuePut (JStr ''ADDED'', JStr ''Pod'', pod ''a'' ''5''),
    ApiGet \<lparr>req_path = ''/watch/pods'', req_version = Some (JStr ''5''), req_stream = True\<rparr>,
    QueuePut (JStr ''MODIFIED'', JStr ''Pod'', pod ''a'' ''6''),
    Log EXCEPTION ''Connection error querying: %s'' [JStr ''Pod''],
    Log WARNING ''Re-starting watch on resource: %s'' [JStr ''Pod''],
    Sleep 1,
    ApiGet \<lparr>req_path = ''/pods'', req_version = None, req_stream = False\<rparr>,
    QueuePut (JStr ''MODIFIED'', JStr ''Pod'', pod ''a'' ''6''),
    ApiGet \<lparr>req_path = ''/watch/pods'', req_version = Some (JStr ''7''), req_stream = True\<rparr>]"
proof -
  have sync: "sync_resources (\<lambda>n. True) ''/pods'' ''Pod'' (list_reply [] ''1'') 0 =
     (Inr (JStr ''1''),
      [ApiGet \<lparr>req_path = ''/pods'', req_version = None, req_stream = False\<rparr>], 0)"
    by (simp add: sync_resources_def api_get_def example_defs)
  have clean: "clean_streams (\<lambda>n. True) ''/watch/pods'' (JStr ''Pod'') (JStr ''1'')
      [stream_reply [Doc (watch_doc ''ADDED'' (pod ''a'' ''5''))] None] 0 =
     Some (JStr ''Pod'', JStr ''5'',
       [ApiGet \<lparr>req_path = ''/watch/pods'', req_version = Some (JStr ''1''),
               req_stream = True\<rparr>,
        QueuePut (JStr ''ADDED'', JStr ''Pod'', pod ''a'' ''5'')], 1)"
    by (simp add: watch_stream_def watch_event_def queue_put_def api_get_def example_defs)
  have broken: "watch_stream (\<lambda>n. True) ''/watch/pods'' (JStr ''Pod'') (JStr ''5'')
      (stream_reply [Doc (watch_doc ''MODIFIED'' (pod ''a'' ''6''))]
        (Some ChunkedEncodingError)) 1 =
     (Inl ChunkedEncodingError,
       [ApiGet \<lparr>req_path = ''/watch/pods'', req_version = Some (JStr ''5''),
               req_stream = True\<rparr>,
        QueuePut (JStr ''MODIFIED'', JStr ''Pod'', pod ''a'' ''6'')], 2)"
    by (simp add: watch_stream_def watch_event_def queue_put_def api_get_def example_defs)
  have next_pass: "manage_resource (\<lambda>n. True) ''/pods'' ''/watch/pods'' ''Pod''
      [list_reply [pod ''a'' ''6''] ''7''] 2 =
     [ApiGet \<lparr>req_path = ''/pods'', req_version = None, req_stream = False\<rparr>,
      QueuePut (JStr ''MODIFIED'', JStr ''Pod'', pod ''a'' ''6''),
      ApiGet \<lparr>req_path = ''/watch/pods'', req_version = Some (JStr ''7''),
              req_stream = True\<rparr>]"
    by (simp add: manage_try_def sync_resources_def queue_put_def api_get_def example_defs)
  from stream_end_decides_next_request
    [OF sync clean broken, where post = "[list_reply [pod ''a'' ''6''] ''7'']"]
  have "manage_resource (\<lambda>n. True) ''/pods'' ''/watch/pods'' ''Pod''
     (list_reply [] ''1'' #
      [stream_reply [Doc (watch_doc ''ADDED'' (pod ''a'' ''5''))] None] @
      stream_reply [Doc (watch_doc ''MODIFIED'' (pod ''a'' ''6''))]
        (Some ChunkedEncodingError) #
      [list_reply [pod ''a'' ''6''] ''7'']) 0 =
     [ApiGet \<lparr>req_path = ''/pods'', req_version = None, req_stream = False\<rparr>] @
     [ApiGet \<lparr>req_path = ''/watch/pods'', req_version = Some (JStr ''1''),
             req_stream = True\<rparr>,
      QueuePut (JStr ''ADDED'', JStr ''Pod'', pod ''a'' ''5'')] @
     [ApiGet \<lparr>req_path = ''/watch/pods'', req_version = Some (JStr ''5''),
             req_stream = True\<rparr>,
      QueuePut (JStr ''MODIFIED'', JStr ''Pod'', pod ''a'' ''6'')] @
     manage_except ''Pod'' ChunkedEncodingError @
     [Log WARNING ''Re-starting watch on resource: %s'' [JStr ''Pod''], Sleep 1] @
     manage_resource (\<lambda>n. True) ''/pods'' ''/watch/pods'' ''Pod''
       [list_reply [pod ''a'' ''6''] ''7''] 2"
    by (simp del: manage_resource.simps)
  with next_pass show ?thesis
    by (simp del: manage_resource.simps)
qed

text \<open>
  The claim as stated fails when the stream ends without an exception: the
  \<^verbatim>\<open>while True\<close> loop of \<^verbatim>\<open>_watch_resource\<close> then sends the next watch request
  itself, from the version of the last event. Here the stream yields ADDED for pod
  \<open>a\<close> at version 5 and ends; the third request is a watch from version 5, with no list
  request before it.
\<close>

theorem watch_reopened_without_list:
  "requests
     (manage_resource (\<lambda>n. True) ''/pods'' ''/watch/pods'' ''Pod''
        [list_reply [] ''1'',
         stream_reply [Doc (watch_doc ''ADDED'' (pod ''a'' ''5''))] None] 0) =
     [\<lparr>req_path = ''/pods'', req_version = None, req_stream = False\<rparr>,
      \<lparr>req_path = ''/watch/pods'', req_version = Some (JStr ''1''), req_stream = True\<rparr>,
      \<lparr>req_path = ''/watch/pods'', req_version = Some (JStr ''5''), req_stream = True\<rparr>]"
  by (simp add: manage_try_def sync_resources_def watch_event_def queue_put_def api_get_def
      example_defs)

text \<open>
  Claim C4. Let a put time out during a pass of the outer loop of \<^verbatim>\<open>_manage_resource\<close>:
  the \<^verbatim>\<open>try\<close> body, entered after \<open>n\<close> puts and left after \<open>n'\<close>, made the put
  number \<open>k\<close>, and that put found no room before its timeout. Then the body ended with
  \<^verbatim>\<open>queue.Full\<close>, whether the put was made by the sync or by the watch; the session logs
  it, logs the restart, sleeps one second and runs its outer loop again, so the thread
  goes on. The next pass does not depend on the old version: its first request is the
  list request, sent without a \<^verbatim>\<open>resourceVersion\<close>.
\<close>

theorem queue_full_restarts_from_resync:
  assumes "manage_try put_ok get_url watch_url rt rep rest n = (r, effs, rest', n')"
      and "n \<le> k" and "k < n'" and "\<not> put_ok k"
  shows "r = Some Full \<and>
         manage_resource put_ok get_url watch_url rt (rep # rest) n =
           effs @ [Log EXCEPTION ''Event queue full'' [],
                   Log WARNING ''Re-starting watch on resource: %s'' [JStr rt],
                   Sleep 1]
                @ manage_resource put_ok get_url watch_url rt rest' n' \<and>
         take 1 (requests (manage_resource put_ok get_url watch_url rt rest' n')) =
           [\<lparr>req_path = get_url, req_version = None, req_stream = False\<rparr>]"
proof -
  have first: "take 1 (requests (manage_resource put_ok get_url watch_url rt reps m)) =
           [\<lparr>req_path = get_url, req_version = None, req_stream = False\<rparr>]" for reps m
  proof (cases reps)
    case Nil
    then show ?thesis by (simp add: api_get_def)
  next
    case (Cons r rs)
    obtain x effs1 n1 where s: "sync_resources put_ok get_url rt r m = (x, effs1, n1)"
      by (cases "sync_resources put_ok get_url rt r m")
    then obtain t where "effs1 = ApiGet (api_get get_url False JNull) # t"
      using sync_resources_effects by blast
    with s Cons show ?thesis
      by (auto simp: manage_try_def requests_append api_get_def
          split: sum.splits prod.splits option.splits)
  qed
  have full: "r = Some Full"
    using manage_try_timeout [OF assms] .
  from assms(1) full first show ?thesis by (simp add: manage_finally_def)
qed

theorem queue_full_restarts_from_resync_witness:
  "manage_resource (\<lambda>n. False) ''/pods'' ''/watch/pods'' ''Pod''
     [list_reply [] ''7'',
      stream_reply [Doc (watch_doc ''ADDED'' (pod ''a'' ''8''))] None,
      list_reply [] ''9''] 0 =
   [ApiGet \<lparr>req_path = ''/pods'', req_version = None, req_stream = False\<rparr>,
    ApiGet \<lparr>req_path = ''/watch/pods'', req_version = Some (JStr ''7''), req_stream = True\<rparr>,
    Log EXCEPTION ''Event queue full'' [],
    Log WARNING ''Re-starting watch on resource: %s'' [JStr ''Pod''],
    Sleep 1,
    ApiGet \<lparr>req_path = ''/pods'', req_version = None, req_stream = False\<rparr>,
    ApiGet \<lparr>req_path = ''/watch/pods'', req_version = Some (JStr ''9''), req_stream = True\<rparr>]"
proof -
  have t: "manage_try (\<lambda>n. False) ''/pods'' ''/watch/pods'' ''Pod'' (list_reply [] ''7'')
      [stream_reply [Doc (watch_doc ''ADDED'' (pod ''a'' ''8''))] None, list_reply [] ''9''] 0 =
     (Some Full,
      [ApiGet \<lparr>req_path = ''/pods'', req_version = None, req_stream = False\<rparr>,
       ApiGet \<lparr>req_path = ''/watch/pods'', req_version = Some (JStr ''7''),
               req_stream = True\<rparr>],
      [list_reply [] ''9''], 1)"
    by (simp add: manage_try_def sync_resources_def watch_event_def queue_put_def api_get_def
        example_defs)
  have k: "(0::nat) \<le> 0" "(0::nat) < 1" "\<not> (\<lambda>n. False) (0::nat)"
    by simp_all
  have next_pass: "manage_resource (\<lambda>n. False) ''/pods'' ''/watch/pods'' ''Pod''
      [list_reply [] ''9''] 1 =
     [ApiGet \<lparr>req_path = ''/pods'', req_version = None, req_stream = False\<rparr>,
      ApiGet \<lparr>req_path = ''/watch/pods'', req_version = Some (JStr ''9''),
              req_stream = True\<rparr>]"
    by (simp add: manage_try_def sync_resources_def api_get_def example_defs)
  from queue_full_restarts_from_resync [OF t k] next_pass show ?thesis
    by simp
qed

section \<open>Loss of leadership\<close>

text \<open>
  Claim C9. In \<^verbatim>\<open>_watch_leadership\<close>, after any number of polls that found this instance
  leader, a poll that reports another leader, or during which any exception is raised,
  is followed by the log line and \<^verbatim>\<open>os._exit(1)\<close>: the effects end with \<open>Exit 1\<close>
  whatever replies would have come later, so there is no further poll, no return to
  waiting for leadership and no other shutdown step.
\<close>

theorem leadership_loss_exits:
  assumes "\<forall>p \<in> set good. is_leader our_name p = Inr True"
      and "is_leader our_name rep \<noteq> Inr True"
  shows "watch_leadership our_name (good @ rep # rest) =
           concat (map (\<lambda>p. [ElectionGet, Sleep 1]) good) @
           [ElectionGet,
            (case is_leader our_name rep of
               Inl e \<Rightarrow> Log EXCEPTION ''Exception verifying leadership - exiting'' []
             | Inr b \<Rightarrow> Log WARNING ''No longer the elected leader - exiting'' []),
            Exit 1]"
  using assms
proof (induction good)
  case Nil
  then show ?case by (cases "is_leader our_name rep") (auto split: bool.splits)
next
  case (Cons p good)
  then show ?case by simp
qed

theorem leadership_loss_exits_witness:
  "watch_leadership (Some ''node-1'')
     [leader_reply ''node-1'', leader_reply ''node-2'', leader_reply ''node-1''] =
   [ElectionGet, Sleep 1,
    ElectionGet, Log WARNING ''No longer the elected leader - exiting'' [], Exit 1] \<and>
   watch_leadership (Some ''node-1'')
     [leader_reply ''node-1'', Raises ConnectionError, leader_reply ''node-1''] =
   [ElectionGet, Sleep 1,
    ElectionGet, Log EXCEPTION ''Exception verifying leadership - exiting'' [], Exit 1]"
proof -
  have good: "\<forall>p \<in> set [leader_reply ''node-1'']. is_leader (Some ''node-1'') p = Inr True"
    by (simp add: is_leader_def leader_reply_def)
  have lost: "is_leader (Some ''node-1'') (leader_reply ''node-2'') \<noteq> Inr True"
    by (simp add: is_leader_def leader_reply_def)
  have broken: "is_leader (Some ''node-1'') (Raises ConnectionError) \<noteq> Inr True"
    by (simp add: is_leader_def)
  show ?thesis
    using leadership_loss_exits [OF good lost, of "[leader_reply ''node-1'']"]
      leadership_loss_exits [OF good broken, of "[leader_reply ''node-1'']"]
    by (simp add: is_leader_def leader_reply_def)
qed

section \<open>Resource type of a watch event\<close>

text \<open>
  Claim C10. Every event that a watch session enqueues from a stream comes from a parsed
  line whose \<open>type\<close> is its event type and whose \<open>object\<close> is its resource, and its
  resource type is the \<open>kind\<close> field of that object, whatever resource type
  (\<open>session_type\<close>) the session was started with. The dispatcher then looks the handler
  up under that kind: \<^verbatim>\<open>_process_update\<close> reads the name without failure and behaves
  as \<^verbatim>\<open>get_handler\<close> for the payload's kind decides.
\<close>

theorem watch_event_type_from_payload:
  assumes "(event_type, kind, resource) \<in>
             set (enqueued (fst (snd (watch_lines put_ok session_type rv ls n))))"
  shows "(\<exists>parsed. Doc parsed \<in> set ls \<and> py_getitem parsed ''type'' = Inr event_type \<and>
            py_getitem parsed ''object'' = Inr resource) \<and>
         py_getitem resource ''kind'' = Inr kind \<and>
         (case get_handler handlers kind event_type of
            Inl e \<Rightarrow>
              process_update handlers st (event_type, kind, resource) =
                (if e = KeyError
                 then (None, st, [Log WARNING ''No %s handlers for: %s'' [event_type, kind]])
                 else (Some e, st, []))
          | Inr handler \<Rightarrow>
              fst (snd (process_update handlers st (event_type, kind, resource))) =
                snd (handler st resource) \<and>
              hd (snd (snd (process_update handlers st (event_type, kind, resource)))) =
                Invoke kind event_type resource)"
proof -
  from watch_lines_enqueued [OF assms] obtain parsed md nm where
    w: "Doc parsed \<in> set ls" "py_getitem parsed ''type'' = Inr event_type"
       "py_getitem parsed ''object'' = Inr resource"
       "py_getitem resource ''kind'' = Inr kind"
       "py_getitem resource ''metadata'' = Inr md" "py_getitem md ''name'' = Inr nm"
    by blast
  obtain kvs where md: "md = JObj kvs"
    using w(6) py_getitem_Inr by blast
  have "case get_handler handlers kind event_type of
            Inl e \<Rightarrow>
              process_update handlers st (event_type, kind, resource) =
                (if e = KeyError
                 then (None, st, [Log WARNING ''No %s handlers for: %s'' [event_type, kind]])
                 else (Some e, st, []))
          | Inr handler \<Rightarrow>
              fst (snd (process_update handlers st (event_type, kind, resource))) =
                snd (handler st resource) \<and>
              hd (snd (snd (process_update handlers st (event_type, kind, resource)))) =
                Invoke kind event_type resource"
    using w(5,6) md
    by (auto simp: process_update_def split: sum.splits exn.splits prod.splits option.splits)
  with w show ?thesis by blast
qed

theorem watch_event_type_from_payload_witness:
  "enqueued (fst (snd (watch_lines (\<lambda>n. True) (JStr ''Pod'') (JStr ''7'')
      [Doc (watch_doc ''ADDED'' (namespace_doc ''ns1'' ''8''))] 0))) =
     [(JStr ''ADDED'', JStr ''Namespace'', namespace_doc ''ns1'' ''8'')] \<and>
   py_getitem (namespace_doc ''ns1'' ''8'') ''kind'' = Inr (JStr ''Namespace'') \<and>
   fst (snd (process_update counting_handlers 0
      (JStr ''ADDED'', JStr ''Namespace'', namespace_doc ''ns1'' ''8''))) = 1 \<and>
   hd (snd (snd (process_update counting_handlers 0
      (JStr ''ADDED'', JStr ''Namespace'', namespace_doc ''ns1'' ''8'')))) =
     Invoke (JStr ''Namespace'') (JStr ''ADDED'') (namespace_doc ''ns1'' ''8'')"
proof -
  have run: "enqueued (fst (snd (watch_lines (\<lambda>n. True) (JStr ''Pod'') (JStr ''7'')
      [Doc (watch_doc ''ADDED'' (namespace_doc ''ns1'' ''8''))] 0))) =
     [(JStr ''ADDED'', JStr ''Namespace'', namespace_doc ''ns1'' ''8'')]"
    by (simp add: watch_event_def queue_put_def namespace_doc_def watch_doc_def
        TYPE_ERROR_def)
  then have mem: "(JStr ''ADDED'', JStr ''Namespace'', namespace_doc ''ns1'' ''8'') \<in>
      set (enqueued (fst (snd (watch_lines (\<lambda>n. True) (JStr ''Pod'') (JStr ''7'')
        [Doc (watch_doc ''ADDED'' (namespace_doc ''ns1'' ''8''))] 0))))"
    by simp
  have h: "get_handler counting_handlers (JStr ''Namespace'') (JStr ''ADDED'') =
      Inr (\<lambda>st resource. (None, Suc st))"
    by (simp add: example_defs)
  from watch_event_type_from_payload [OF mem, of counting_handlers 0] run h
  show ?thesis by simp
qed

end
